theory Spec2Isabelle
  imports Complex_Main "HOL-Library.Multiset" "HOL-Library.Product_Lexorder"
begin

section \<open>Brightness samples\<close>

text \<open>
  A brightness sample is a NumPy floating-point number. The model keeps the special values
  that decide the behaviour of the pipeline (the missing-value marker \<open>NaN\<close> and the two
  infinities that a division by zero produces) and takes every other value as an exact
  real number: rounding, overflow and the sign of zero are not modelled. The sign of zero
  never reaches a divisor in this program: the divisors are \<open>sumLights\<close> (which starts from
  the integer 0, so a zero total is +0), the block size, and an earlier value that has been
  replaced by -1 when it compares equal to zero.

  The properties below say which operation is applied to which values and what the special
  values and the signs of the results are; these carry over to the rounded operations.
  Identities that hold only without rounding (the normalized values sum to exactly 1) are
  not stated.
\<close>

datatype npfloat = NaN | NInf | Fin real | PInf

fun fneg :: "npfloat \<Rightarrow> npfloat" where
  "fneg NaN = NaN"
| "fneg NInf = PInf"
| "fneg PInf = NInf"
| "fneg (Fin x) = Fin (- x)"

fun fadd :: "npfloat \<Rightarrow> npfloat \<Rightarrow> npfloat" where
  "fadd NaN b = NaN"
| "fadd a NaN = NaN"
| "fadd PInf NInf = NaN"
| "fadd NInf PInf = NaN"
| "fadd PInf b = PInf"
| "fadd a PInf = PInf"
| "fadd NInf b = NInf"
| "fadd a NInf = NInf"
| "fadd (Fin x) (Fin y) = Fin (x + y)"

definition fsub :: "npfloat \<Rightarrow> npfloat \<Rightarrow> npfloat" where
  "fsub a b = fadd a (fneg b)"

fun fdiv :: "npfloat \<Rightarrow> npfloat \<Rightarrow> npfloat" where
  "fdiv NaN b = NaN"
| "fdiv a NaN = NaN"
| "fdiv (Fin x) (Fin y) =
     (if y = 0 then (if x = 0 then NaN else if 0 < x then PInf else NInf)
      else Fin (x / y))"
| "fdiv (Fin x) b = Fin 0"
| "fdiv PInf (Fin y) = (if y < 0 then NInf else PInf)"
| "fdiv NInf (Fin y) = (if y < 0 then PInf else NInf)"
| "fdiv a b = NaN"

text \<open>The comparisons \<open>v < 0\<close> and \<open>v == 0\<close>; both are false on \<open>NaN\<close>.\<close>

fun flt0 :: "npfloat \<Rightarrow> bool" where
  "flt0 NInf = True"
| "flt0 (Fin x) = (x < 0)"
| "flt0 v = False"

fun feq0 :: "npfloat \<Rightarrow> bool" where
  "feq0 (Fin x) = (x = 0)"
| "feq0 v = False"

section \<open>Two-dimensional arrays\<close>

text \<open>
  A two-dimensional array is its list of rows together with its column count, which an
  array with no row still has. NumPy arrays are rectangular: \<open>rect\<close>.
\<close>

record ndarray =
  ncols :: nat
  rows :: "npfloat list list"

definition nrows :: "ndarray \<Rightarrow> nat" where
  "nrows a = length (rows a)"

definition shape :: "ndarray \<Rightarrow> nat \<times> nat" where
  "shape a = (nrows a, ncols a)"

definition rect :: "ndarray \<Rightarrow> bool" where
  "rect a = list_all (\<lambda>r. length r = ncols a) (rows a)"

definition cell :: "ndarray \<Rightarrow> nat \<Rightarrow> nat \<Rightarrow> npfloat" where
  "cell a i j = rows a ! i ! j"

text \<open>An elementwise operation on one array (\<open>np.where(cond, x, a)\<close>, \<open>a / s\<close>).\<close>

definition amap :: "(npfloat \<Rightarrow> npfloat) \<Rightarrow> ndarray \<Rightarrow> ndarray" where
  "amap f a = \<lparr>ncols = ncols a, rows = map (map f) (rows a)\<rparr>"

text \<open>\<open>np.sum(a)\<close>: the sum of all elements; the sum of no element is 0.\<close>

definition fsum :: "npfloat list \<Rightarrow> npfloat" where
  "fsum xs = foldl fadd (Fin 0) xs"

definition asum :: "ndarray \<Rightarrow> npfloat" where
  "asum a = fsum (concat (rows a))"

text \<open>
  The slice \<open>xs[lo:hi]\<close> for \<open>0 \<le> lo\<close>: it is cut at the end of the list and empty
  when \<open>hi \<le> lo\<close>, without an error. \<open>a[r0:r1, c0:c1]\<close> slices both axes.
\<close>

definition slice :: "nat \<Rightarrow> nat \<Rightarrow> 'a list \<Rightarrow> 'a list" where
  "slice lo hi xs = take (hi - lo) (drop lo xs)"

definition slice2 :: "nat \<Rightarrow> nat \<Rightarrow> nat \<Rightarrow> nat \<Rightarrow> ndarray \<Rightarrow> ndarray" where
  "slice2 r0 r1 c0 c1 a =
     \<lparr>ncols = min c1 (ncols a) - c0, rows = map (slice c0 c1) (slice r0 r1 (rows a))\<rparr>"

text \<open>The slice with a step \<open>xs[::n]\<close> for \<open>n \<ge> 1\<close>: the entries at 0, n, 2n, ...\<close>

definition stride :: "nat \<Rightarrow> 'a list \<Rightarrow> 'a list" where
  "stride n xs = map (\<lambda>i. xs ! (i * n)) [0..<(length xs + n - 1) div n]"

datatype error = KeyError | ValueError | ZeroDivisionError

text \<open>
  A binary operation on two arrays follows NumPy's broadcasting: along each axis the two
  sizes are equal or one of them is 1 (that operand is repeated); any other pair of sizes
  raises \<open>ValueError\<close>.
\<close>

definition bdim :: "nat \<Rightarrow> nat \<Rightarrow> nat option" where
  "bdim m n = (if m = n then Some m else if m = 1 then Some n else if n = 1 then Some m else None)"

definition bidx :: "nat \<Rightarrow> nat \<Rightarrow> nat" where
  "bidx d i = (if d = 1 then 0 else i)"

definition broadcast2 ::
  "(npfloat \<Rightarrow> npfloat \<Rightarrow> npfloat) \<Rightarrow> ndarray \<Rightarrow> ndarray \<Rightarrow> error + ndarray" where
  "broadcast2 f a b =
     (case bdim (nrows a) (nrows b) of
        None \<Rightarrow> Inl ValueError
      | Some R \<Rightarrow>
          (case bdim (ncols a) (ncols b) of
             None \<Rightarrow> Inl ValueError
           | Some C \<Rightarrow>
               Inr \<lparr>ncols = C,
                    rows = map (\<lambda>i. map (\<lambda>j. f (cell a (bidx (nrows a) i) (bidx (ncols a) j))
                                              (cell b (bidx (nrows b) i) (bidx (ncols b) j)))
                                      [0..<C])
                               [0..<R]\<rparr>))"

section \<open>Tiles and tile files\<close>

text \<open>
  A tile is the tuple \<open>(values, lat, lon)\<close>. A tile file of the store carries the attribute
  \<open>RangeEndingDate\<close> and, in its data fields, the brightness grid and the two coordinate
  vectors; an attribute or a data set that is absent is \<open>None\<close>, and reading it raises
  \<open>KeyError\<close>. Coordinates are real numbers; dates are byte strings.
\<close>

type_synonym tile = "ndarray \<times> real list \<times> real list"

record h5file =
  RangeEndingDate :: "string option"
  NearNadir_Composite_Snow_Free :: "ndarray option"
  lat_field :: "real list option"
  lon_field :: "real list option"

type_synonym bbox = "real \<times> real \<times> real \<times> real"

section \<open>load_data_for_date\<close>

text \<open>\<open>np.where(v < 0, np.nan, v)\<close>: a negative sample becomes the missing-value marker.\<close>

definition mask_invalid :: "npfloat \<Rightarrow> npfloat" where
  "mask_invalid v = (if flt0 v then NaN else v)"

text \<open>\<open>np.where((lo <= xs) & (xs <= hi))\<close>: the indices of the entries within the bounds.\<close>

definition valid_idx :: "real \<Rightarrow> real \<Rightarrow> real list \<Rightarrow> nat list" where
  "valid_idx lo hi xs = filter (\<lambda>i. lo \<le> xs ! i \<and> xs ! i \<le> hi) [0..<length xs]"

text \<open>
  The body of the loop over the files, for one file: an error, no tile (another date, or
  no coordinate within the bounds), or the cropped tile.
\<close>

definition load_file :: "string \<Rightarrow> bbox \<Rightarrow> h5file \<Rightarrow> error + tile option" where
  "load_file date_wanted coords f =
     (case coords of (southBound, northBound, westBound, eastBound) \<Rightarrow>
      (case RangeEndingDate f of
         None \<Rightarrow> Inl KeyError
       | Some date \<Rightarrow>
           if date = date_wanted then
             (case NearNadir_Composite_Snow_Free f of
                None \<Rightarrow> Inl KeyError
              | Some raw \<Rightarrow>
             (case lat_field f of
                None \<Rightarrow> Inl KeyError
              | Some lat_data \<Rightarrow>
             (case lon_field f of
                None \<Rightarrow> Inl KeyError
              | Some lon_data \<Rightarrow>
                  (let light_data = amap mask_invalid raw;
                       valid_lon = valid_idx westBound eastBound lon_data;
                       valid_lat = valid_idx southBound northBound lat_data
                   in if valid_lon = [] \<or> valid_lat = [] then Inr None
                      else
                        (let first_lon = Min (set valid_lon);
                             last_lon = Max (set valid_lon);
                             first_lat = Min (set valid_lat);
                             last_lat = Max (set valid_lat)
                         in Inr (Some (slice2 first_lat (last_lat + 1) first_lon (last_lon + 1) light_data,
                                       slice first_lat (last_lat + 1) lat_data,
                                       slice first_lon (last_lon + 1) lon_data)))))))
           else Inr None))"

fun load_loop :: "string \<Rightarrow> bbox \<Rightarrow> h5file list \<Rightarrow> tile list \<Rightarrow> error + tile list" where
  "load_loop date_wanted coords [] data_list = Inr data_list"
| "load_loop date_wanted coords (f # files) data_list =
     (case load_file date_wanted coords f of
        Inl e \<Rightarrow> Inl e
      | Inr None \<Rightarrow> load_loop date_wanted coords files data_list
      | Inr (Some t) \<Rightarrow> load_loop date_wanted coords files (data_list @ [t]))"

text \<open>The sort key \<open>(data[-2][0], data[-1][0])\<close>; tuples compare lexicographically.\<close>

definition tile_key :: "tile \<Rightarrow> real \<times> real" where
  "tile_key data = (hd (fst (snd data)), hd (snd (snd data)))"

text \<open>
  \<open>files\<close> is the list of the store's tile files in the order in which \<open>glob\<close> lists them.
  Python's \<open>sorted\<close> is stable, as \<open>sort_key\<close> is.
\<close>

definition load_data_for_date :: "string \<Rightarrow> bbox \<Rightarrow> h5file list \<Rightarrow> error + tile list" where
  "load_data_for_date date_wanted coords files =
     (case load_loop date_wanted coords files [] of
        Inl e \<Rightarrow> Inl e
      | Inr data_list \<Rightarrow> Inr (sort_key tile_key data_list))"

section \<open>normalize_data\<close>

definition normalize_data :: "tile list \<Rightarrow> tile list" where
  "normalize_data data_list =
     (let sumLights = foldl (\<lambda>s data. fadd s (asum (fst data))) (Fin 0) data_list
      in map (\<lambda>data. (amap (\<lambda>v. fdiv v sumLights) (fst data), snd data)) data_list)"

section \<open>block_average and chunk_data\<close>

text \<open>
  \<open>reshape\<close> reads the elements in row-major order: \<open>unflatten k m\<close> cuts a list into
  \<open>k\<close> pieces of \<open>m\<close> elements, and \<open>reshape4\<close> does so three times. \<open>mean13\<close> is the
  mean over the axes 1 and 3 of a four-dimensional array: the sum of the elements divided
  by their number.
\<close>

definition unflatten :: "nat \<Rightarrow> nat \<Rightarrow> 'a list \<Rightarrow> 'a list list" where
  "unflatten k m xs = map (\<lambda>i. take m (drop (i * m) xs)) [0..<k]"

definition reshape4 :: "nat \<Rightarrow> nat \<Rightarrow> nat \<Rightarrow> nat \<Rightarrow> 'a list \<Rightarrow> 'a list list list list" where
  "reshape4 d0 d1 d2 d3 xs =
     map (\<lambda>p. map (unflatten d2 d3) (unflatten d1 (d2 * d3) p)) (unflatten d0 (d1 * d2 * d3) xs)"

definition mean13 :: "nat \<Rightarrow> nat \<Rightarrow> nat \<Rightarrow> npfloat list list list list \<Rightarrow> npfloat list list" where
  "mean13 d1 d2 d3 a4 =
     map (\<lambda>blk. map (\<lambda>j. fdiv (fsum (concat (map (\<lambda>a. map (\<lambda>b. blk ! a ! j ! b) [0..<d3]) [0..<d1])))
                              (Fin (real (d1 * d3))))
                    [0..<d2])
         a4"

text \<open>
  The factor \<open>n\<close> is a natural number (the interface offers 1 to 32); \<open>ny % n\<close> on Python
  integers raises \<open>ZeroDivisionError\<close> for \<open>n = 0\<close>.
\<close>

definition block_average :: "ndarray \<Rightarrow> nat \<Rightarrow> error + ndarray" where
  "block_average matrix n =
     (if n = 0 then Inl ZeroDivisionError
      else
        (let ny = nrows matrix; nx = ncols matrix;
             ny_trim = ny - ny mod n; nx_trim = nx - nx mod n
         in if ny_trim = 0 \<or> nx_trim = 0 then Inl ValueError
            else
              (let trimmed = slice2 0 ny_trim 0 nx_trim matrix
               in Inr \<lparr>ncols = nx_trim div n,
                       rows = mean13 n (nx_trim div n) n
                                (reshape4 (ny_trim div n) n (nx_trim div n) n
                                   (concat (rows trimmed)))\<rparr>)))"

text \<open>
  \<open>chunk_data\<close> changes its list in place, from the last index down to the first; the
  model returns the list it leaves. \<open>chunk_loop n i\<close> is the state of the loop with the
  counter at \<open>i\<close>. A \<open>ValueError\<close> of \<open>block_average\<close> deletes the entry; any other
  exception leaves the function.
\<close>

definition delete_at :: "nat \<Rightarrow> 'a list \<Rightarrow> 'a list" where
  "delete_at k xs = take k xs @ drop (Suc k) xs"

fun chunk_loop :: "nat \<Rightarrow> nat \<Rightarrow> tile list \<Rightarrow> error + tile list" where
  "chunk_loop chunk_size 0 data_list = Inr data_list"
| "chunk_loop chunk_size (Suc k) data_list =
     (case data_list ! k of (values, lat, lon) \<Rightarrow>
        (case block_average values chunk_size of
           Inr values' \<Rightarrow>
             chunk_loop chunk_size k
               (data_list[k := (values', stride chunk_size lat, stride chunk_size lon)])
         | Inl ValueError \<Rightarrow> chunk_loop chunk_size k (delete_at k data_list)
         | Inl e \<Rightarrow> Inl e))"

definition chunk_data :: "tile list \<Rightarrow> nat \<Rightarrow> error + tile list" where
  "chunk_data data_list chunk_size = chunk_loop chunk_size (length data_list) data_list"

section \<open>get_difference_data\<close>

text \<open>The body of the loop over the zipped lists, for one pair of tiles.\<close>

definition difference_tile :: "bool \<Rightarrow> tile \<Rightarrow> tile \<Rightarrow> error + tile" where
  "difference_tile relative data1 data2 =
     (case data1 of (light1, lat, lon) \<Rightarrow>
      (case data2 of (light2, lat2, lon2) \<Rightarrow>
        (case (if relative
               then broadcast2 fdiv light2 (amap (\<lambda>v. if feq0 v then Fin (- 1) else v) light1)
               else broadcast2 fsub light2 light1) of
           Inl e \<Rightarrow> Inl e
         | Inr difference \<Rightarrow> Inr (difference, lat, lon))))"

fun difference_loop :: "bool \<Rightarrow> (tile \<times> tile) list \<Rightarrow> tile list \<Rightarrow> error + tile list" where
  "difference_loop relative [] difference_list = Inr difference_list"
| "difference_loop relative ((data1, data2) # ps) difference_list =
     (case difference_tile relative data1 data2 of
        Inl e \<Rightarrow> Inl e
      | Inr d \<Rightarrow> difference_loop relative ps (difference_list @ [d]))"

definition get_difference_data ::
  "string \<Rightarrow> string \<Rightarrow> bbox \<Rightarrow> bool \<Rightarrow> nat \<Rightarrow> bool \<Rightarrow> h5file list \<Rightarrow> error + tile list" where
  "get_difference_data dateEarly dateLater coords relative chunk_size normalize_flag files =
     (case load_data_for_date dateEarly coords files of
        Inl e \<Rightarrow> Inl e
      | Inr loaded1 \<Rightarrow>
     (case load_data_for_date dateLater coords files of
        Inl e \<Rightarrow> Inl e
      | Inr loaded2 \<Rightarrow>
     (case (if 1 < chunk_size then chunk_data loaded1 chunk_size else Inr loaded1) of
        Inl e \<Rightarrow> Inl e
      | Inr chunked1 \<Rightarrow>
     (case (if 1 < chunk_size then chunk_data loaded2 chunk_size else Inr loaded2) of
        Inl e \<Rightarrow> Inl e
      | Inr chunked2 \<Rightarrow>
          (let data_list1 = (if normalize_flag then normalize_data chunked1 else chunked1);
               data_list2 = (if normalize_flag then normalize_data chunked2 else chunked2)
           in difference_loop relative (zip data_list1 data_list2) [])))))"

section \<open>The data of one date\<close>

text \<open>
  The branch of the script for the mode Single: load the tiles of the date, average them
  in blocks when the factor exceeds 1, normalize them when asked.
  \<open>get_difference_data\<close> prepares each of its two dates with the same three steps.
\<close>

definition single_mode_data ::
  "string \<Rightarrow> bbox \<Rightarrow> nat \<Rightarrow> bool \<Rightarrow> h5file list \<Rightarrow> error + tile list" where
  "single_mode_data sel_date coords downsample_val normalize_flag files =
     (case load_data_for_date sel_date coords files of
        Inl e \<Rightarrow> Inl e
      | Inr loaded \<Rightarrow>
          (case (if 1 < downsample_val then chunk_data loaded downsample_val else Inr loaded) of
             Inl e \<Rightarrow> Inl e
           | Inr chunked \<Rightarrow> Inr (if normalize_flag then normalize_data chunked else chunked)))"

section \<open>Notions used to state the properties\<close>

text \<open>The comparison \<open>v > 0\<close>.\<close>

fun fgt0 :: "npfloat \<Rightarrow> bool" where
  "fgt0 PInf = True"
| "fgt0 (Fin x) = (0 < x)"
| "fgt0 v = False"

text \<open>Every element of an array satisfies a predicate.\<close>

definition all_cells :: "(npfloat \<Rightarrow> bool) \<Rightarrow> ndarray \<Rightarrow> bool" where
  "all_cells P a = list_all (list_all P) (rows a)"

text \<open>The grid of every file of the store is rectangular, as every NumPy array is.\<close>

definition rect_store :: "h5file list \<Rightarrow> bool" where
  "rect_store files =
     list_all (\<lambda>f. case NearNadir_Composite_Snow_Free f of None \<Rightarrow> True | Some g \<Rightarrow> rect g) files"

text \<open>Two grids can be combined elementwise: broadcasting accepts their shapes.\<close>

definition broadcastable :: "ndarray \<Rightarrow> ndarray \<Rightarrow> bool" where
  "broadcastable a b = (bdim (nrows a) (nrows b) \<noteq> None \<and> bdim (ncols a) (ncols b) \<noteq> None)"

text \<open>
  What \<open>chunk_data\<close> does to one tile: the averaged tile, or nothing when
  \<open>block_average\<close> raises \<open>ValueError\<close>.
\<close>

definition chunk_tile :: "nat \<Rightarrow> tile \<Rightarrow> tile option" where
  "chunk_tile chunk_size data =
     (case block_average (fst data) chunk_size of
        Inl e \<Rightarrow> None
      | Inr values' \<Rightarrow>
          Some (values', stride chunk_size (fst (snd data)), stride chunk_size (snd (snd data))))"

text \<open>A coordinate vector is monotone: it never decreases, or it never increases.\<close>

definition monotone_vec :: "real list \<Rightarrow> bool" where
  "monotone_vec xs = (sorted xs \<or> sorted (rev xs))"

text \<open>The alignment of a tile: one latitude for each row, one longitude for each column.\<close>

definition aligned :: "tile \<Rightarrow> bool" where
  "aligned data =
     (nrows (fst data) = length (fst (snd data)) \<and> ncols (fst data) = length (snd (snd data)))"

text \<open>
  All values of a tile set in reading order, and their sum. \<open>normalize_data_spec\<close>
  follows the words of the specification (missing values are left out of the total); it
  is compared with \<open>normalize_data\<close>, which follows the code.
\<close>

definition all_values :: "tile list \<Rightarrow> npfloat list" where
  "all_values data_list = concat (map (\<lambda>data. concat (rows (fst data))) data_list)"

definition grand_total :: "tile list \<Rightarrow> npfloat" where
  "grand_total data_list = fsum (all_values data_list)"

definition normalize_data_spec :: "tile list \<Rightarrow> tile list" where
  "normalize_data_spec data_list =
     (let total = fsum (filter (\<lambda>v. v \<noteq> NaN) (all_values data_list))
      in map (\<lambda>data. (amap (\<lambda>v. fdiv v total) (fst data), snd data)) data_list)"

text \<open>The block \<open>(i, j)\<close> of side \<open>n\<close> of a matrix, in reading order.\<close>

definition block_cells :: "ndarray \<Rightarrow> nat \<Rightarrow> nat \<Rightarrow> nat \<Rightarrow> npfloat list" where
  "block_cells matrix n i j =
     concat (map (\<lambda>a. map (\<lambda>b. cell matrix (i * n + a) (j * n + b)) [0..<n]) [0..<n])"

text \<open>
  A coordinate lies within two bounds. \<open>file_tile\<close> is the tile a file contributes, if
  any. \<open>index_range lo hi xs a b\<close>: \<open>a\<close> and \<open>b\<close> are the first and the last index of an
  entry of \<open>xs\<close> within the bounds. \<open>cropped\<close> abbreviates, in the proofs, what is
  shown of a tile: it is the file's data cut to the two index ranges, both ends included,
  and where a coordinate vector is monotone, every coordinate kept lies within the bounds.
\<close>

definition in_range :: "real \<Rightarrow> real \<Rightarrow> real \<Rightarrow> bool" where
  "in_range lo hi x = (lo \<le> x \<and> x \<le> hi)"

definition file_tile :: "string \<Rightarrow> bbox \<Rightarrow> h5file \<Rightarrow> tile option" where
  "file_tile date_wanted coords f =
     (case load_file date_wanted coords f of Inl e \<Rightarrow> None | Inr r \<Rightarrow> r)"

definition index_range :: "real \<Rightarrow> real \<Rightarrow> real list \<Rightarrow> nat \<Rightarrow> nat \<Rightarrow> bool" where
  "index_range lo hi xs a b =
     (a \<le> b \<and> b < length xs \<and> in_range lo hi (xs ! a) \<and> in_range lo hi (xs ! b) \<and>
      (\<forall>i<length xs. in_range lo hi (xs ! i) \<longrightarrow> a \<le> i \<and> i \<le> b))"

definition cropped :: "bbox \<Rightarrow> ndarray \<Rightarrow> real list \<Rightarrow> real list \<Rightarrow> tile \<Rightarrow> bool" where
  "cropped coords raw lat_data lon_data t =
     (case coords of (south, north, west, east) \<Rightarrow>
        (\<exists>a b c d.
           index_range south north lat_data a b \<and> index_range west east lon_data c d \<and>
           t = (slice2 a (Suc b) c (Suc d) (amap mask_invalid raw),
                map ((!) lat_data) [a..<Suc b], map ((!) lon_data) [c..<Suc d]) \<and>
           (monotone_vec lat_data \<longrightarrow> (\<forall>x\<in>set (fst (snd t)). in_range south north x)) \<and>
           (monotone_vec lon_data \<longrightarrow> (\<forall>x\<in>set (snd (snd t)). in_range west east x))))"

text \<open>
  A tile as the pipeline produces it from a store of rectangular grids: its grid is
  rectangular and holds no negative value (negative samples are masked on loading).
\<close>

definition pipeline_tile :: "tile \<Rightarrow> bool" where
  "pipeline_tile t = (rect (fst t) \<and> all_cells (\<lambda>v. \<not> flt0 v) (fst t))"

section \<open>Arithmetic of samples\<close>

lemma fdiv_minus_one: "fdiv v (Fin (- 1)) = fneg v"
  by (cases v) simp_all

lemma flt0_fneg: "flt0 (fneg v) = fgt0 v"
  by (cases v) simp_all

section \<open>Arrays\<close>

lemma nrows_amap: "nrows (amap f a) = nrows a"
  by (simp add: nrows_def amap_def)

lemma ncols_amap: "ncols (amap f a) = ncols a"
  by (simp add: amap_def)

lemma rect_amap: "rect (amap f a) = rect a"
  by (simp add: rect_def amap_def list_all_iff)

lemma rect_row: "rect a \<Longrightarrow> i < nrows a \<Longrightarrow> length (rows a ! i) = ncols a"
  by (simp add: rect_def nrows_def list_all_length)

lemma cell_amap:
  "rect a \<Longrightarrow> i < nrows a \<Longrightarrow> j < ncols a \<Longrightarrow> cell (amap f a) i j = f (cell a i j)"
  using rect_row[of a i] by (simp add: cell_def amap_def nrows_def)

lemma bdim_bidx: "bdim m n = Some k \<Longrightarrow> i < k \<Longrightarrow> bidx m i < m \<and> bidx n i < n"
  by (auto simp: bdim_def bidx_def split: if_splits)

lemma bdim_same: "bdim m m = Some m"
  by (simp add: bdim_def)

lemma bidx_same: "i < m \<Longrightarrow> bidx m i = i"
  by (auto simp: bidx_def)

lemma broadcast2_Inr:
  assumes "broadcast2 f a b = Inr d"
  shows "bdim (nrows a) (nrows b) = Some (nrows d)"
    and "bdim (ncols a) (ncols b) = Some (ncols d)"
    and "rect d"
    and "i < nrows d \<Longrightarrow> j < ncols d \<Longrightarrow>
         cell d i j = f (cell a (bidx (nrows a) i) (bidx (ncols a) j))
                        (cell b (bidx (nrows b) i) (bidx (ncols b) j))"
  using assms
  by (auto simp: broadcast2_def nrows_def rect_def cell_def list_all_iff split: option.splits)

lemma broadcast2_Inl:
  "broadcast2 f a b = Inl e \<longleftrightarrow>
     e = ValueError \<and> (bdim (nrows a) (nrows b) = None \<or> bdim (ncols a) (ncols b) = None)"
  by (auto simp: broadcast2_def split: option.splits)

section \<open>The relative difference of a cell\<close>

text \<open>
  C4, as amended. In relative mode, for each cell of a pair of tiles, with the earlier and
  the later value that broadcasting pairs at the cell: if the earlier value equals zero,
  the divisor is -1 and the result is the negative of the later value, which is negative
  exactly when the later value is positive (and zero when the later value is zero);
  otherwise the result is the later value divided by the earlier one, and for a positive
  earlier value and a non-negative later value it is their ratio, which is at least 0.
\<close>

theorem relative_cell:
  assumes "difference_tile True (light1, lat, lon) (light2, lat2, lon2) = Inr (d, la, lo)"
    and "rect light1" and "i < nrows d" and "j < ncols d"
    and "earlier = cell light1 (bidx (nrows light1) i) (bidx (ncols light1) j)"
    and "later = cell light2 (bidx (nrows light2) i) (bidx (ncols light2) j)"
  shows "(feq0 earlier \<longrightarrow>
            cell d i j = fdiv later (Fin (- 1)) \<and> cell d i j = fneg later \<and>
            flt0 (cell d i j) = fgt0 later) \<and>
         (\<not> feq0 earlier \<longrightarrow> cell d i j = fdiv later earlier) \<and>
         (\<forall>x y. earlier = Fin x \<and> later = Fin y \<and> 0 < x \<and> 0 \<le> y \<longrightarrow>
            cell d i j = Fin (y / x) \<and> 0 \<le> y / x)"
proof -
  let ?den = "amap (\<lambda>v. if feq0 v then Fin (- 1) else v) light1"
  from assms(1) have b: "broadcast2 fdiv light2 ?den = Inr d"
    by (auto simp: difference_tile_def split: sum.splits)
  have r: "bdim (nrows light2) (nrows light1) = Some (nrows d)"
    and c: "bdim (ncols light2) (ncols light1) = Some (ncols d)"
    using broadcast2_Inr(1,2)[OF b] by (simp_all add: nrows_amap ncols_amap)
  have i1: "bidx (nrows light1) i < nrows light1"
    using bdim_bidx[OF r assms(3)] by simp
  have j1: "bidx (ncols light1) j < ncols light1"
    using bdim_bidx[OF c assms(4)] by simp
  have "cell d i j = fdiv later (cell ?den (bidx (nrows light1) i) (bidx (ncols light1) j))"
    using broadcast2_Inr(4)[OF b assms(3,4)] assms(6) by (simp add: nrows_amap ncols_amap)
  then have eq: "cell d i j = fdiv later (if feq0 earlier then Fin (- 1) else earlier)"
    using cell_amap[OF assms(2) i1 j1] assms(5) by simp
  show ?thesis
    using eq by (auto simp: fdiv_minus_one flt0_fneg)
qed

text \<open>
  The examples of the specification: an earlier value 0 and a later value 5 give -5, an
  earlier value 2 and a later value 6 give 3.
\<close>

theorem relative_cell_witness:
  "difference_tile True (\<lparr>ncols = 2, rows = [[Fin 0, Fin 2]]\<rparr>, [9], [21, 22])
       (\<lparr>ncols = 2, rows = [[Fin 5, Fin 6]]\<rparr>, [9], [21, 22])
     = Inr (\<lparr>ncols = 2, rows = [[Fin (- 5), Fin 3]]\<rparr>, [9], [21, 22])
   \<and> rect \<lparr>ncols = 2, rows = [[Fin 0, Fin 2]]\<rparr>
   \<and> cell \<lparr>ncols = 2, rows = [[Fin (- 5), Fin 3]]\<rparr> 0 0 = fneg (Fin 5)
   \<and> flt0 (cell \<lparr>ncols = 2, rows = [[Fin (- 5), Fin 3]]\<rparr> 0 0)
   \<and> cell \<lparr>ncols = 2, rows = [[Fin (- 5), Fin 3]]\<rparr> 0 1 = fdiv (Fin 6) (Fin 2)"
proof -
  let ?l1 = "\<lparr>ncols = 2, rows = [[Fin 0, Fin 2]]\<rparr>"
  let ?l2 = "\<lparr>ncols = 2, rows = [[Fin 5, Fin 6]]\<rparr>"
  let ?d = "\<lparr>ncols = 2, rows = [[Fin (- 5), Fin 3]]\<rparr>"
  have h: "difference_tile True (?l1, [9], [21, 22]) (?l2, [9], [21, 22]) = Inr (?d, [9], [21, 22])"
    by code_simp
  have r: "rect ?l1" by code_simp
  have i: "0 < nrows ?d" and j0: "0 < ncols ?d" and j1: "1 < ncols ?d"
    by (simp_all add: nrows_def)
  have e0: "Fin 0 = cell ?l1 (bidx (nrows ?l1) 0) (bidx (ncols ?l1) 0)"
    and l0: "Fin 5 = cell ?l2 (bidx (nrows ?l2) 0) (bidx (ncols ?l2) 0)"
    and e1: "Fin 2 = cell ?l1 (bidx (nrows ?l1) 0) (bidx (ncols ?l1) 1)"
    and l1: "Fin 6 = cell ?l2 (bidx (nrows ?l2) 0) (bidx (ncols ?l2) 1)"
    by (simp_all add: cell_def bidx_def nrows_def)
  from relative_cell[OF h r i j0 e0 l0]
  have a: "cell ?d 0 0 = fneg (Fin 5)" and b: "flt0 (cell ?d 0 0)" by simp_all
  from relative_cell[OF h r i j1 e1 l1]
  have c: "cell ?d 0 1 = fdiv (Fin 6) (Fin 2)" by simp
  from h r a b c show ?thesis by blast
qed

text \<open>
  The claim as stated fails where both values are zero: the earlier value is zero, and the
  result is zero, not negative.
\<close>

theorem relative_zero_counterexample:
  "difference_tile True (\<lparr>ncols = 1, rows = [[Fin 0]]\<rparr>, [9], [21])
       (\<lparr>ncols = 1, rows = [[Fin 0]]\<rparr>, [9], [21])
     = Inr (\<lparr>ncols = 1, rows = [[Fin 0]]\<rparr>, [9], [21])
   \<and> feq0 (cell \<lparr>ncols = 1, rows = [[Fin 0]]\<rparr> 0 0)
   \<and> \<not> flt0 (cell \<lparr>ncols = 1, rows = [[Fin 0]]\<rparr> 0 0)"
  by code_simp

section \<open>Sums and normalize_data\<close>

lemma fadd_assoc: "fadd (fadd a b) c = fadd a (fadd b c)"
  by (cases a; cases b; cases c) simp_all

lemma fadd_zero_left: "fadd (Fin 0) a = a"
  by (cases a) simp_all

lemma fadd_zero_right: "fadd a (Fin 0) = a"
  by (cases a) simp_all

lemma foldl_fadd_acc: "foldl fadd a xs = fadd a (foldl fadd (Fin 0) xs)"
proof (induction xs arbitrary: a)
  case Nil
  show ?case by (simp add: fadd_zero_right)
next
  case (Cons x xs)
  have "foldl fadd a (x # xs) = fadd (fadd a x) (foldl fadd (Fin 0) xs)"
    using Cons.IH[of "fadd a x"] by simp
  also have "\<dots> = fadd a (fadd x (foldl fadd (Fin 0) xs))"
    by (simp add: fadd_assoc)
  also have "fadd x (foldl fadd (Fin 0) xs) = foldl fadd (Fin 0) (x # xs)"
    using Cons.IH[of "fadd (Fin 0) x"] by (simp add: fadd_zero_left)
  finally show ?case .
qed

lemma fsum_append: "fsum (xs @ ys) = fadd (fsum xs) (fsum ys)"
  using foldl_fadd_acc[of "foldl fadd (Fin 0) xs" ys] by (simp add: fsum_def)

lemma sumLights_grand_total:
  "foldl (\<lambda>s data. fadd s (asum (fst data))) a data_list = fadd a (grand_total data_list)"
proof (induction data_list arbitrary: a)
  case Nil
  show ?case by (simp add: grand_total_def all_values_def fsum_def fadd_zero_right)
next
  case (Cons d ds)
  have "grand_total (d # ds) = fadd (asum (fst d)) (grand_total ds)"
    by (simp add: grand_total_def all_values_def asum_def fsum_append)
  then show ?case
    using Cons.IH[of "fadd a (asum (fst d))"] by (simp add: fadd_assoc)
qed

lemma normalize_data_eq:
  "normalize_data data_list =
     map (\<lambda>data. (amap (\<lambda>v. fdiv v (grand_total data_list)) (fst data), snd data)) data_list"
  by (simp add: normalize_data_def sumLights_grand_total fadd_zero_left)

lemma foldl_fadd_NaN: "a = NaN \<or> NaN \<in> set xs \<Longrightarrow> foldl fadd a xs = NaN"
proof (induction xs arbitrary: a)
  case Nil
  then show ?case by simp
next
  case (Cons x xs)
  have "fadd a x = NaN \<or> NaN \<in> set xs"
    using Cons.prems by (cases a; cases x) auto
  then show ?case using Cons.IH by simp
qed

lemma fsum_NaN: "NaN \<in> set xs \<Longrightarrow> fsum xs = NaN"
  by (simp add: fsum_def foldl_fadd_NaN)

lemma foldl_fadd_Fin: "foldl fadd (Fin a) (map Fin xs) = Fin (a + sum_list xs)"
  by (induction xs arbitrary: a) (simp_all add: add.assoc)

lemma fsum_Fin: "fsum (map Fin xs) = Fin (sum_list xs)"
  by (simp add: fsum_def foldl_fadd_Fin)

lemma all_values_map:
  "all_values (map (\<lambda>data. (amap f (fst data), snd data)) data_list) = map f (all_values data_list)"
  by (induction data_list) (simp_all add: all_values_def amap_def map_concat)

lemma all_values_normalize:
  "all_values (normalize_data data_list) =
     map (\<lambda>v. fdiv v (grand_total data_list)) (all_values data_list)"
  by (simp add: normalize_data_eq all_values_map)

lemma amap_id: "(\<And>v. f v = v) \<Longrightarrow> amap f a = a"
proof -
  assume "\<And>v. f v = v"
  then have "f = (\<lambda>v. v)" by (simp add: fun_eq_iff)
  then show ?thesis by (cases a) (simp add: amap_def)
qed

lemma fdiv_one: "fdiv v (Fin 1) = v"
  by (cases v) simp_all

lemma normalize_data_total_one: "grand_total data_list = Fin 1 \<Longrightarrow> normalize_data data_list = data_list"
  by (simp add: normalize_data_eq fdiv_one amap_id map_idI)

text \<open>
  C1, as amended. \<open>normalize_data\<close> divides every value of every tile by the grand total
  of all values of all tiles and leaves the coordinate vectors as they are. The total is
  NumPy's propagating sum: when any value of any tile is missing, the total is missing and
  every output value of every tile is missing; when every value is a finite number, the
  total is their sum and each output value is the value divided by that sum.
\<close>

theorem normalize_data_total:
  "normalize_data data_list =
     map (\<lambda>data. (amap (\<lambda>v. fdiv v (grand_total data_list)) (fst data), snd data)) data_list
   \<and> map snd (normalize_data data_list) = map snd data_list
   \<and> (NaN \<in> set (all_values data_list) \<longrightarrow>
        grand_total data_list = NaN \<and>
        (\<forall>v \<in> set (all_values (normalize_data data_list)). v = NaN))
   \<and> (\<forall>xs. all_values data_list = map Fin xs \<longrightarrow>
        grand_total data_list = Fin (sum_list xs) \<and>
        all_values (normalize_data data_list) = map (\<lambda>x. fdiv (Fin x) (Fin (sum_list xs))) xs \<and>
        (sum_list xs \<noteq> 0 \<longrightarrow>
           all_values (normalize_data data_list) = map (\<lambda>x. Fin (x / sum_list xs)) xs))"
proof -
  have a: "map snd (normalize_data data_list) = map snd data_list"
    by (simp add: normalize_data_eq comp_def)
  have b: "grand_total data_list = NaN \<and>
           (\<forall>v \<in> set (all_values (normalize_data data_list)). v = NaN)"
    if "NaN \<in> set (all_values data_list)"
  proof -
    have t: "grand_total data_list = NaN"
      using that by (simp add: grand_total_def fsum_NaN)
    have "fdiv v NaN = NaN" for v by (cases v) simp_all
    with t show ?thesis by (auto simp: all_values_normalize)
  qed
  have c: "grand_total data_list = Fin (sum_list xs) \<and>
           all_values (normalize_data data_list) = map (\<lambda>x. fdiv (Fin x) (Fin (sum_list xs))) xs \<and>
           (sum_list xs \<noteq> 0 \<longrightarrow>
              all_values (normalize_data data_list) = map (\<lambda>x. Fin (x / sum_list xs)) xs)"
    if "all_values data_list = map Fin xs" for xs
  proof -
    have t: "grand_total data_list = Fin (sum_list xs)"
      using that by (simp add: grand_total_def fsum_Fin)
    show ?thesis
      by (simp add: t all_values_normalize that comp_def)
  qed
  from a b c normalize_data_eq[of data_list] show ?thesis by blast
qed

theorem normalize_data_total_witness:
  "NaN \<in> set (all_values [(\<lparr>ncols = 2, rows = [[NaN, Fin 1]]\<rparr>, [9], [21, 22]),
                           (\<lparr>ncols = 1, rows = [[Fin 3]]\<rparr>, [9], [30])])
   \<and> grand_total [(\<lparr>ncols = 2, rows = [[NaN, Fin 1]]\<rparr>, [9], [21, 22]),
                  (\<lparr>ncols = 1, rows = [[Fin 3]]\<rparr>, [9], [30])] = NaN
   \<and> all_values [(\<lparr>ncols = 2, rows = [[Fin 1, Fin 3]]\<rparr>, [9], [21, 22])] = map Fin [1, 3]
   \<and> sum_list [1, 3 :: real] \<noteq> 0
   \<and> all_values (normalize_data [(\<lparr>ncols = 2, rows = [[Fin 1, Fin 3]]\<rparr>, [9], [21, 22])])
       = [Fin (1 / 4), Fin (3 / 4)]"
proof -
  let ?ts = "[(\<lparr>ncols = 2, rows = [[NaN, Fin 1]]\<rparr>, [9], [21, 22]),
              (\<lparr>ncols = 1, rows = [[Fin 3]]\<rparr>, [9], [30::real])]"
  let ?us = "[(\<lparr>ncols = 2, rows = [[Fin 1, Fin 3]]\<rparr>, [9::real], [21, 22::real])]"
  have h1: "NaN \<in> set (all_values ?ts)" by (simp add: all_values_def)
  have h2: "all_values ?us = map Fin [1, 3]" by (simp add: all_values_def)
  have h3: "sum_list [1, 3 :: real] \<noteq> 0" by simp
  from normalize_data_total[of ?ts] h1 have c1: "grand_total ?ts = NaN" by blast
  from normalize_data_total[of ?us] h2 h3
  have "all_values (normalize_data ?us) = map (\<lambda>x. Fin (x / sum_list [1, 3])) [1, 3]"
    by blast
  then have c2: "all_values (normalize_data ?us) = [Fin (1 / 4), Fin (3 / 4)]" by simp
  from h1 c1 h2 h3 c2 show ?thesis by blast
qed

text \<open>
  The claim as stated fails on a tile set that holds a missing value: the code returns
  missing values everywhere, also in the tile that holds none, where the specification's
  total (missing values left out) gives proportions.
\<close>

theorem normalize_missing_counterexample:
  "normalize_data [(\<lparr>ncols = 2, rows = [[NaN, Fin 1]]\<rparr>, [9], [21, 22]),
                   (\<lparr>ncols = 1, rows = [[Fin 3]]\<rparr>, [9], [30])]
     = [(\<lparr>ncols = 2, rows = [[NaN, NaN]]\<rparr>, [9], [21, 22]),
        (\<lparr>ncols = 1, rows = [[NaN]]\<rparr>, [9], [30])]
   \<and> normalize_data_spec [(\<lparr>ncols = 2, rows = [[NaN, Fin 1]]\<rparr>, [9], [21, 22]),
                           (\<lparr>ncols = 1, rows = [[Fin 3]]\<rparr>, [9], [30])]
     = [(\<lparr>ncols = 2, rows = [[NaN, Fin (1 / 4)]]\<rparr>, [9], [21, 22]),
        (\<lparr>ncols = 1, rows = [[Fin (3 / 4)]]\<rparr>, [9], [30])]"
  by code_simp

section \<open>Properties of block_average and chunk_data\<close>

lemma mul_add_less: "j < d2 \<Longrightarrow> b < d3 \<Longrightarrow> j * d3 + b < d2 * (d3::nat)"
proof -
  assume j: "j < d2" and b: "b < d3"
  have "j * d3 + b < j * d3 + d3" using b by simp
  also have "\<dots> = Suc j * d3" by simp
  also have "\<dots> \<le> d2 * d3" using j by (intro mult_le_mono1) simp
  finally show ?thesis .
qed

lemma length_unflatten: "length (unflatten k m xs) = k"
  by (simp add: unflatten_def)

lemma nth_unflatten: "i < k \<Longrightarrow> unflatten k m xs ! i = take m (drop (i * m) xs)"
  by (simp add: unflatten_def)

lemma nth_piece: "j < m \<Longrightarrow> i * m + j < length xs \<Longrightarrow> take m (drop (i * m) xs) ! j = xs ! (i * m + j)"
  by simp

lemma length_piece: "Suc i * m \<le> length xs \<Longrightarrow> length (take m (drop (i * m) xs)) = m"
  by simp

lemma reshape4_nth:
  assumes len: "length xs = d0 * d1 * d2 * d3"
    and i: "i < d0" and a: "a < d1" and j: "j < d2" and b: "b < d3"
  shows "reshape4 d0 d1 d2 d3 xs ! i ! a ! j ! b = xs ! (((i * d1 + a) * d2 + j) * d3 + b)"
proof -
  let ?m1 = "d1 * d2 * d3" and ?m2 = "d2 * d3"
  let ?p = "take ?m1 (drop (i * ?m1) xs)"
  let ?q = "take ?m2 (drop (a * ?m2) ?p)"
  have k3: "j * d3 + b < ?m2" using mul_add_less[OF j b] .
  have k2: "a * ?m2 + (j * d3 + b) < d1 * ?m2" using mul_add_less[OF a k3] .
  then have k2': "a * ?m2 + (j * d3 + b) < ?m1" by (simp add: mult.assoc)
  have k1: "i * ?m1 + (a * ?m2 + (j * d3 + b)) < d0 * ?m1" using mul_add_less[OF i k2'] .
  then have k1': "i * ?m1 + (a * ?m2 + (j * d3 + b)) < length xs" by (simp add: len mult.assoc)
  have lp: "length ?p = ?m1"
  proof -
    have "Suc i * ?m1 \<le> d0 * ?m1" using i by (intro mult_le_mono1) simp
    then have "Suc i * ?m1 \<le> length xs" by (simp add: len mult.assoc)
    then show ?thesis by (rule length_piece)
  qed
  have s1: "Suc a * ?m2 \<le> length ?p"
  proof -
    have "Suc a * ?m2 \<le> d1 * ?m2" using a by (intro mult_le_mono1) simp
    also have "d1 * ?m2 = ?m1" by (simp add: mult.assoc)
    finally show ?thesis by (simp only: lp)
  qed
  have lq: "length ?q = ?m2" by (rule length_piece[OF s1])
  have "reshape4 d0 d1 d2 d3 xs ! i ! a ! j = take d3 (drop (j * d3) ?q)"
    using i a j by (simp add: reshape4_def length_unflatten nth_unflatten)
  then have "reshape4 d0 d1 d2 d3 xs ! i ! a ! j ! b = take d3 (drop (j * d3) ?q) ! b" by simp
  also have "\<dots> = ?q ! (j * d3 + b)"
    by (rule nth_piece[OF b]) (simp only: lq k3)
  also have "\<dots> = ?p ! (a * ?m2 + (j * d3 + b))"
    by (rule nth_piece[OF k3]) (simp only: lp k2')
  also have "\<dots> = xs ! (i * ?m1 + (a * ?m2 + (j * d3 + b)))"
    by (rule nth_piece[OF k2' k1'])
  also have "i * ?m1 + (a * ?m2 + (j * d3 + b)) = ((i * d1 + a) * d2 + j) * d3 + b"
    by (simp add: algebra_simps)
  finally show ?thesis .
qed

lemma length_concat_uniform:
  "\<forall>r\<in>set xss. length r = m \<Longrightarrow> length (concat xss) = length xss * m"
  by (induction xss) simp_all

lemma nth_concat_uniform:
  "\<forall>r\<in>set xss. length r = m \<Longrightarrow> r < length xss \<Longrightarrow> c < m \<Longrightarrow>
   concat xss ! (r * m + c) = xss ! r ! c"
proof (induction xss arbitrary: r)
  case Nil
  then show ?case by simp
next
  case (Cons xs xss)
  show ?case
  proof (cases r)
    case 0
    with Cons.prems show ?thesis by (simp add: nth_append)
  next
    case (Suc r')
    with Cons.prems have "concat xss ! (r' * m + c) = xss ! r' ! c"
      by (intro Cons.IH) auto
    with Suc Cons.prems show ?thesis by (simp add: nth_append)
  qed
qed

lemma slice_zero: "slice 0 h = take h"
  by (simp add: slice_def fun_eq_iff)

lemma trim_eq: "(k::nat) - k mod n = k div n * n"
  by (simp add: minus_mod_eq_div_mult)

lemma trim_zero_iff: "0 < n \<Longrightarrow> (k::nat) - k mod n = 0 \<longleftrightarrow> k < n"
  by (simp add: trim_eq div_eq_0_iff)

lemma block_average_Inl:
  assumes "0 < n"
  shows "block_average matrix n = Inl e \<longleftrightarrow> e = ValueError \<and> (nrows matrix < n \<or> ncols matrix < n)"
  using assms trim_zero_iff[OF assms, of "nrows matrix"] trim_zero_iff[OF assms, of "ncols matrix"]
  by (auto simp: block_average_def Let_def)

lemma block_average_rows:
  assumes "0 < n" and "n \<le> nrows matrix" and "n \<le> ncols matrix"
  shows "block_average matrix n =
     Inr \<lparr>ncols = ncols matrix div n,
          rows = mean13 n (ncols matrix div n) n
                   (reshape4 (nrows matrix div n) n (ncols matrix div n) n
                      (concat (map (take (ncols matrix div n * n))
                                   (take (nrows matrix div n * n) (rows matrix)))))\<rparr>"
proof -
  have z: "nrows matrix - nrows matrix mod n \<noteq> 0" "ncols matrix - ncols matrix mod n \<noteq> 0"
    using assms trim_zero_iff[OF assms(1)] by auto
  have d: "(nrows matrix - nrows matrix mod n) div n = nrows matrix div n"
          "(ncols matrix - ncols matrix mod n) div n = ncols matrix div n"
    using assms(1) by (simp_all add: trim_eq)
  show ?thesis
    using assms(1) z d
    by (simp add: block_average_def Let_def slice2_def slice_zero trim_eq)
qed

lemma mean13_nth:
  "i < length a4 \<Longrightarrow> j < d2 \<Longrightarrow>
   mean13 d1 d2 d3 a4 ! i ! j =
     fdiv (fsum (concat (map (\<lambda>a. map (\<lambda>b. a4 ! i ! a ! j ! b) [0..<d3]) [0..<d1])))
          (Fin (real (d1 * d3)))"
  by (simp add: mean13_def)

lemma length_reshape4: "length (reshape4 d0 d1 d2 d3 xs) = d0"
  by (simp add: reshape4_def length_unflatten)

lemma trimmed_cell:
  assumes "rect matrix" and "r < h" and "h \<le> nrows matrix" and "c < w" and "w \<le> ncols matrix"
  shows "concat (map (take w) (take h (rows matrix))) ! (r * w + c) = cell matrix r c"
proof -
  let ?t = "map (take w) (take h (rows matrix))"
  have u: "\<forall>x\<in>set ?t. length x = w"
  proof
    fix x assume "x \<in> set ?t"
    then obtain y where y: "y \<in> set (rows matrix)" "x = take w y"
      by (auto dest: in_set_takeD)
    with assms(1) have "length y = ncols matrix" by (simp add: rect_def list_all_iff)
    with y assms(5) show "length x = w" by simp
  qed
  have l: "r < length ?t" using assms(2,3) by (simp add: nrows_def)
  have "concat ?t ! (r * w + c) = ?t ! r ! c"
    by (rule nth_concat_uniform[OF u l assms(4)])
  also have "\<dots> = cell matrix r c"
    using assms(2,3,4) by (simp add: cell_def nrows_def)
  finally show ?thesis .
qed

lemma trimmed_length:
  assumes "rect matrix" and "h \<le> nrows matrix" and "w \<le> ncols matrix"
  shows "length (concat (map (take w) (take h (rows matrix)))) = h * w"
proof -
  let ?t = "map (take w) (take h (rows matrix))"
  have u: "\<forall>x\<in>set ?t. length x = w"
  proof
    fix x assume "x \<in> set ?t"
    then obtain y where y: "y \<in> set (rows matrix)" "x = take w y"
      by (auto dest: in_set_takeD)
    with assms(1) have "length y = ncols matrix" by (simp add: rect_def list_all_iff)
    with y assms(3) show "length x = w" by simp
  qed
  have "length ?t = h" using assms(2) by (simp add: nrows_def)
  with length_concat_uniform[OF u] show ?thesis by simp
qed

lemma block_average_cells:
  assumes "rect matrix" and "0 < n" and "n \<le> nrows matrix" and "n \<le> ncols matrix"
  shows "\<exists>out. block_average matrix n = Inr out \<and>
           nrows out = nrows matrix div n \<and> ncols out = ncols matrix div n \<and> rect out \<and>
           (\<forall>i<nrows matrix div n. \<forall>j<ncols matrix div n.
              cell out i j = fdiv (fsum (block_cells matrix n i j)) (Fin (real (n * n))))"
proof -
  let ?d0 = "nrows matrix div n" and ?d2 = "ncols matrix div n"
  let ?flat = "concat (map (take (?d2 * n)) (take (?d0 * n) (rows matrix)))"
  let ?r4 = "reshape4 ?d0 n ?d2 n ?flat"
  let ?out = "\<lparr>ncols = ?d2, rows = mean13 n ?d2 n ?r4\<rparr>"
  have hb: "?d0 * n \<le> nrows matrix" and wb: "?d2 * n \<le> ncols matrix" by simp_all
  have len: "length ?flat = ?d0 * n * ?d2 * n"
    using trimmed_length[OF assms(1) hb wb] by (simp add: mult.assoc)
  have eq: "block_average matrix n = Inr ?out"
    by (rule block_average_rows[OF assms(2,3,4)])
  have nr: "nrows ?out = ?d0" by (simp add: nrows_def mean13_def length_reshape4)
  have re: "rect ?out" by (simp add: rect_def mean13_def list_all_iff)
  have ce: "cell ?out i j = fdiv (fsum (block_cells matrix n i j)) (Fin (real (n * n)))"
    if i: "i < ?d0" and j: "j < ?d2" for i j
  proof -
    have el: "?r4 ! i ! a ! j ! b = cell matrix (i * n + a) (j * n + b)" if a: "a < n" and b: "b < n" for a b
    proof -
      have r: "i * n + a < ?d0 * n" using mul_add_less[OF i a] .
      have c: "j * n + b < ?d2 * n" using mul_add_less[OF j b] .
      have "?r4 ! i ! a ! j ! b = ?flat ! (((i * n + a) * ?d2 + j) * n + b)"
        by (rule reshape4_nth[OF len i a j b])
      also have "((i * n + a) * ?d2 + j) * n + b = (i * n + a) * (?d2 * n) + (j * n + b)"
        by (simp add: algebra_simps)
      also have "?flat ! ((i * n + a) * (?d2 * n) + (j * n + b)) = cell matrix (i * n + a) (j * n + b)"
        by (rule trimmed_cell[OF assms(1) r hb c wb])
      finally show ?thesis .
    qed
    have "concat (map (\<lambda>a. map (\<lambda>b. ?r4 ! i ! a ! j ! b) [0..<n]) [0..<n]) = block_cells matrix n i j"
      unfolding block_cells_def
      by (intro arg_cong[where f = concat] map_cong refl) (simp add: el)
    then show ?thesis
      using i j by (simp add: cell_def mean13_nth length_reshape4)
  qed
  from eq nr re ce show ?thesis by (intro exI[of _ ?out]) simp
qed

lemma length_block_cells: "length (block_cells matrix n i j) = n * n"
  by (simp add: block_cells_def length_concat_uniform[where m = n])

lemma map_filter_append: "List.map_filter f (xs @ ys) = List.map_filter f xs @ List.map_filter f ys"
  by (simp add: List.map_filter_def)

lemma chunk_tile_None:
  "0 < n \<Longrightarrow> chunk_tile n t = None \<longleftrightarrow> nrows (fst t) < n \<or> ncols (fst t) < n"
  using block_average_Inl[of n "fst t"]
  by (cases "block_average (fst t) n") (auto simp: chunk_tile_def)

lemma chunk_loop_step:
  assumes "0 < n" and "k < length dl"
  shows "chunk_loop n (Suc k) dl =
     (case chunk_tile n (dl ! k) of
        Some t' \<Rightarrow> chunk_loop n k (dl[k := t'])
      | None \<Rightarrow> chunk_loop n k (delete_at k dl))"
proof -
  obtain vals lat lon where d: "dl ! k = (vals, lat, lon)"
    by (cases "dl ! k") auto
  show ?thesis
  proof (cases "block_average vals n")
    case (Inl e)
    then have "e = ValueError" using block_average_Inl[OF assms(1)] by blast
    with Inl show ?thesis by (simp add: chunk_tile_def d)
  next
    case (Inr v)
    then show ?thesis by (simp add: chunk_tile_def d)
  qed
qed

lemma chunk_loop_eq:
  assumes "0 < n"
  shows "k \<le> length dl \<Longrightarrow>
         chunk_loop n k dl = Inr (List.map_filter (chunk_tile n) (take k dl) @ drop k dl)"
proof (induction k arbitrary: dl)
  case 0
  show ?case by (simp add: List.map_filter_simps)
next
  case (Suc k)
  then have k: "k < length dl" by simp
  have tk: "take (Suc k) dl = take k dl @ [dl ! k]"
    using k by (simp add: take_Suc_conv_app_nth)
  show ?case
  proof (cases "chunk_tile n (dl ! k)")
    case None
    have "chunk_loop n (Suc k) dl = chunk_loop n k (delete_at k dl)"
      using chunk_loop_step[OF assms k] None by simp
    also have "\<dots> = Inr (List.map_filter (chunk_tile n) (take k (delete_at k dl)) @ drop k (delete_at k dl))"
      using k by (intro Suc.IH) (simp add: delete_at_def)
    also have "take k (delete_at k dl) = take k dl"
      using k by (simp add: delete_at_def)
    also have "drop k (delete_at k dl) = drop (Suc k) dl"
      using k by (simp add: delete_at_def)
    finally show ?thesis
      using None by (simp add: tk map_filter_append List.map_filter_simps)
  next
    case (Some t')
    have "chunk_loop n (Suc k) dl = chunk_loop n k (dl[k := t'])"
      using chunk_loop_step[OF assms k] Some by simp
    also have "\<dots> = Inr (List.map_filter (chunk_tile n) (take k (dl[k := t'])) @ drop k (dl[k := t']))"
      using k by (intro Suc.IH) simp
    also have "take k (dl[k := t']) = take k dl" by simp
    also have "drop k (dl[k := t']) = t' # drop (Suc k) dl"
      using k Cons_nth_drop_Suc[of k "dl[k := t']"] by simp
    finally show ?thesis
      using Some by (simp add: tk map_filter_append List.map_filter_simps)
  qed
qed

lemma chunk_data_eq: "0 < n \<Longrightarrow> chunk_data dl n = Inr (List.map_filter (chunk_tile n) dl)"
  using chunk_loop_eq[of n "length dl" dl] by (simp add: chunk_data_def)

lemma length_stride: "0 < n \<Longrightarrow> length (stride n xs) = (length xs + n - 1) div n"
  by (simp add: stride_def)

lemma ceil_div_eq_iff:
  assumes "0 < n"
  shows "((k + n - 1) div n = k div n) = (n dvd (k::nat))"
proof (cases "k mod n = 0")
  case True
  have "k + n - 1 = k div n * n + (n - 1)"
    using True assms div_mult_mod_eq[of k n] by simp
  then have "(k + n - 1) div n = k div n + (n - 1) div n"
    using assms by (simp only: div_mult_self3)
  then have "(k + n - 1) div n = k div n" using assms by simp
  with True show ?thesis by (simp add: dvd_eq_mod_eq_0)
next
  case False
  then have r: "0 < k mod n" by simp
  have "k + n - 1 = Suc (k div n) * n + (k mod n - 1)"
    using r div_mult_mod_eq[of k n] by simp
  then have "(k + n - 1) div n = Suc (k div n) + (k mod n - 1) div n"
    using assms by (simp only: div_mult_self3)
  then have "(k + n - 1) div n \<noteq> k div n" by simp
  with False show ?thesis by (simp add: dvd_eq_mod_eq_0)
qed

lemma block_average_shape_only:
  assumes "0 < n" and "n \<le> nrows matrix" and "n \<le> ncols matrix"
  shows "\<exists>out. block_average matrix n = Inr out \<and> nrows out = nrows matrix div n \<and>
               ncols out = ncols matrix div n"
  unfolding block_average_rows[OF assms]
  by (simp add: nrows_def mean13_def length_reshape4)


text \<open>
  C5. For a factor \<open>n \<ge> 1\<close>: \<open>chunk_data\<close> never raises; it returns, in their order,
  the averaged tiles of the tiles that \<open>block_average\<close> accepts and drops the others. A
  tile is dropped exactly when its grid has fewer than \<open>n\<close> rows or fewer than \<open>n\<close>
  columns (\<open>block_average\<close> raises \<open>ValueError\<close>). Otherwise the averaged grid of an
  \<open>R \<times> C\<close> grid has the shape \<open>(R div n, C div n)\<close>, and its cell \<open>(i, j)\<close> is the sum
  of the \<open>n * n\<close> values of the block \<open>(i, j)\<close> divided by \<open>n * n\<close>: for finite values,
  their arithmetic mean. The rows and columns past the last full block are not read.
\<close>

theorem chunk_data_block_average:
  assumes "0 < n"
  shows "chunk_data data_list n = Inr (List.map_filter (chunk_tile n) data_list)
       \<and> (\<forall>t. chunk_tile n t = None \<longleftrightarrow> nrows (fst t) < n \<or> ncols (fst t) < n)
       \<and> (\<forall>matrix. nrows matrix < n \<or> ncols matrix < n \<longrightarrow>
             block_average matrix n = Inl ValueError)
       \<and> (\<forall>matrix. rect matrix \<and> n \<le> nrows matrix \<and> n \<le> ncols matrix \<longrightarrow>
            (\<exists>out. block_average matrix n = Inr out \<and>
               shape out = (nrows matrix div n, ncols matrix div n) \<and>
               (\<forall>i<nrows matrix div n. \<forall>j<ncols matrix div n.
                  length (block_cells matrix n i j) = n * n \<and>
                  cell out i j = fdiv (fsum (block_cells matrix n i j)) (Fin (real (n * n))) \<and>
                  (\<forall>xs. block_cells matrix n i j = map Fin xs \<longrightarrow>
                     cell out i j = Fin (sum_list xs / real (n * n))))))"
proof -
  have a: "chunk_data data_list n = Inr (List.map_filter (chunk_tile n) data_list)"
    by (rule chunk_data_eq[OF assms])
  have b: "\<forall>t. chunk_tile n t = None \<longleftrightarrow> nrows (fst t) < n \<or> ncols (fst t) < n"
    using chunk_tile_None[OF assms] by blast
  have c: "\<forall>matrix. nrows matrix < n \<or> ncols matrix < n \<longrightarrow>
             block_average matrix n = Inl ValueError"
    using block_average_Inl[OF assms] by blast
  have d: "\<exists>out. block_average matrix n = Inr out \<and>
               shape out = (nrows matrix div n, ncols matrix div n) \<and>
               (\<forall>i<nrows matrix div n. \<forall>j<ncols matrix div n.
                  length (block_cells matrix n i j) = n * n \<and>
                  cell out i j = fdiv (fsum (block_cells matrix n i j)) (Fin (real (n * n))) \<and>
                  (\<forall>xs. block_cells matrix n i j = map Fin xs \<longrightarrow>
                     cell out i j = Fin (sum_list xs / real (n * n))))"
    if h: "rect matrix" "n \<le> nrows matrix" "n \<le> ncols matrix" for matrix
  proof -
    from block_average_cells[OF h(1) assms h(2,3)] obtain out where
      out: "block_average matrix n = Inr out" "nrows out = nrows matrix div n"
        "ncols out = ncols matrix div n"
        "\<forall>i<nrows matrix div n. \<forall>j<ncols matrix div n.
           cell out i j = fdiv (fsum (block_cells matrix n i j)) (Fin (real (n * n)))"
      by blast
    have m: "cell out i j = Fin (sum_list xs / real (n * n))"
      if "i < nrows matrix div n" "j < ncols matrix div n" "block_cells matrix n i j = map Fin xs"
      for i j xs
    proof -
      have "cell out i j = fdiv (Fin (sum_list xs)) (Fin (real (n * n)))"
        using out(4) that by (simp add: fsum_Fin)
      then show ?thesis using assms by simp
    qed
    show ?thesis
      using out m by (intro exI[of _ out]) (simp add: shape_def length_block_cells)
  qed
  from a b c d show ?thesis by blast
qed

theorem chunk_data_block_average_witness:
  "0 < (2::nat)
   \<and> chunk_data [(\<lparr>ncols = 3, rows = [[Fin 1, Fin 2, Fin 3], [Fin 4, Fin 5, Fin 6], [Fin 7, Fin 8, Fin 9]]\<rparr>,
                  [1, 2, 3], [10, 20, 30]),
                 (\<lparr>ncols = 3, rows = [[Fin 1, Fin 2, Fin 3]]\<rparr>, [4], [10, 20, 30]),
                 (\<lparr>ncols = 2, rows = [[Fin 2, Fin 4], [Fin 6, Fin 8]]\<rparr>, [5, 6], [10, 20])] 2
     = Inr [(\<lparr>ncols = 1, rows = [[Fin 3]]\<rparr>, [1, 3], [10, 30]),
            (\<lparr>ncols = 1, rows = [[Fin 5]]\<rparr>, [5], [10])]
   \<and> block_average \<lparr>ncols = 3, rows = [[Fin 1, Fin 2, Fin 3]]\<rparr> 2 = Inl ValueError"
proof -
  let ?ts = "[(\<lparr>ncols = 3, rows = [[Fin 1, Fin 2, Fin 3], [Fin 4, Fin 5, Fin 6], [Fin 7, Fin 8, Fin 9]]\<rparr>,
                  [1, 2, 3], [10, 20, 30]),
                 (\<lparr>ncols = 3, rows = [[Fin 1, Fin 2, Fin 3]]\<rparr>, [4], [10, 20, 30]),
                 (\<lparr>ncols = 2, rows = [[Fin 2, Fin 4], [Fin 6, Fin 8]]\<rparr>, [5, 6], [10, 20::real])]"
  have h: "0 < (2::nat)" by simp
  have e: "List.map_filter (chunk_tile 2) ?ts
     = [(\<lparr>ncols = 1, rows = [[Fin 3]]\<rparr>, [1, 3], [10, 30]),
        (\<lparr>ncols = 1, rows = [[Fin 5]]\<rparr>, [5], [10])]"
    by code_simp
  have n: "nrows \<lparr>ncols = 3, rows = [[Fin 1, Fin 2, Fin 3]]\<rparr> < 2"
    by (simp add: nrows_def)
  from chunk_data_block_average[OF h, of ?ts] e
  have a: "chunk_data ?ts 2
     = Inr [(\<lparr>ncols = 1, rows = [[Fin 3]]\<rparr>, [1, 3], [10, 30]),
            (\<lparr>ncols = 1, rows = [[Fin 5]]\<rparr>, [5], [10])]"
    by simp
  from chunk_data_block_average[OF h, of ?ts] n
  have b: "block_average \<lparr>ncols = 3, rows = [[Fin 1, Fin 2, Fin 3]]\<rparr> 2 = Inl ValueError"
    by blast
  from h a b show ?thesis by blast
qed

text \<open>
  C2, the failing operation. \<open>chunk_data\<close> takes every \<open>n\<close>-th coordinate of the whole
  vector, \<open>(R + n - 1) div n\<close> entries, where the averaged grid has \<open>R div n\<close> rows (and the
  same for the columns): the tile it returns is aligned exactly when \<open>n\<close> divides both
  dimensions of the grid.
\<close>

theorem chunk_tile_alignment:
  assumes "0 < n" and "aligned t" and "n \<le> nrows (fst t)" and "n \<le> ncols (fst t)"
  shows "\<exists>t'. chunk_tile n t = Some t' \<and>
           nrows (fst t') = nrows (fst t) div n \<and>
           length (fst (snd t')) = (nrows (fst t) + n - 1) div n \<and>
           ncols (fst t') = ncols (fst t) div n \<and>
           length (snd (snd t')) = (ncols (fst t) + n - 1) div n \<and>
           (aligned t' \<longleftrightarrow> n dvd nrows (fst t) \<and> n dvd ncols (fst t))"
proof -
  from block_average_shape_only[OF assms(1,3,4)] obtain out where
    out: "block_average (fst t) n = Inr out" "nrows out = nrows (fst t) div n"
         "ncols out = ncols (fst t) div n"
    by blast
  let ?t' = "(out, stride n (fst (snd t)), stride n (snd (snd t)))"
  have c: "chunk_tile n t = Some ?t'" by (simp add: chunk_tile_def out(1))
  have la: "length (fst (snd ?t')) = (nrows (fst t) + n - 1) div n"
    and lo: "length (snd (snd ?t')) = (ncols (fst t) + n - 1) div n"
    using assms(1,2) by (simp_all add: length_stride aligned_def)
  have "aligned ?t' \<longleftrightarrow> n dvd nrows (fst t) \<and> n dvd ncols (fst t)"
    using la lo out(2,3) ceil_div_eq_iff[OF assms(1), of "nrows (fst t)"]
      ceil_div_eq_iff[OF assms(1), of "ncols (fst t)"]
    by (auto simp: aligned_def)
  with c la lo out(2,3) show ?thesis by (intro exI[of _ ?t']) simp
qed

theorem chunk_tile_alignment_witness:
  "0 < (2::nat)
   \<and> aligned (\<lparr>ncols = 3, rows = [[Fin 1, Fin 2, Fin 3], [Fin 4, Fin 5, Fin 6], [Fin 7, Fin 8, Fin 9]]\<rparr>,
               [1, 2, 3], [10, 20, 30])
   \<and> chunk_data [(\<lparr>ncols = 3, rows = [[Fin 1, Fin 2, Fin 3], [Fin 4, Fin 5, Fin 6], [Fin 7, Fin 8, Fin 9]]\<rparr>,
                  [1, 2, 3], [10, 20, 30])] 2
     = Inr [(\<lparr>ncols = 1, rows = [[Fin 3]]\<rparr>, [1, 3], [10, 30])]
   \<and> \<not> aligned (\<lparr>ncols = 1, rows = [[Fin 3]]\<rparr>, [1, 3], [10, 30])"
proof -
  let ?t = "(\<lparr>ncols = 3, rows = [[Fin 1, Fin 2, Fin 3], [Fin 4, Fin 5, Fin 6], [Fin 7, Fin 8, Fin 9]]\<rparr>,
               [1, 2, 3::real], [10, 20, 30::real])"
  let ?t' = "(\<lparr>ncols = 1, rows = [[Fin 3]]\<rparr>, [1, 3::real], [10, 30::real])"
  have h1: "0 < (2::nat)" by simp
  have h2: "aligned ?t" by (simp add: aligned_def nrows_def)
  have h3: "2 \<le> nrows (fst ?t)" and h4: "2 \<le> ncols (fst ?t)" by (simp_all add: nrows_def)
  have e: "chunk_tile 2 ?t = Some ?t'" by code_simp
  have c: "chunk_data [?t] 2 = Inr [?t']" by code_simp
  have nd: "\<not> 2 dvd nrows (fst ?t)" by (simp add: nrows_def)
  from chunk_tile_alignment[OF h1 h2 h3 h4] e nd have "\<not> aligned ?t'" by auto
  with h1 h2 c show ?thesis by blast
qed

section \<open>Properties of load_data_for_date\<close>

lemma set_valid_idx:
  "set (valid_idx lo hi xs) = {i. i < length xs \<and> in_range lo hi (xs ! i)}"
  by (auto simp: valid_idx_def in_range_def)

lemma valid_idx_Nil: "valid_idx lo hi xs = [] \<longleftrightarrow> (\<forall>x\<in>set xs. \<not> in_range lo hi x)"
proof -
  have "valid_idx lo hi xs = [] \<longleftrightarrow> set (valid_idx lo hi xs) = {}" by simp
  also have "\<dots> \<longleftrightarrow> (\<forall>i<length xs. \<not> in_range lo hi (xs ! i))"
    unfolding set_valid_idx by auto
  also have "\<dots> \<longleftrightarrow> (\<forall>x\<in>set xs. \<not> in_range lo hi x)"
    by (metis in_set_conv_nth)
  finally show ?thesis .
qed

lemma slice_map_nth: "hi \<le> length xs \<Longrightarrow> slice lo hi xs = map ((!) xs) [lo..<hi]"
  by (rule map_upt_eqI[symmetric]) (auto simp: slice_def)

lemma valid_idx_ends:
  assumes "valid_idx lo hi xs \<noteq> []"
  defines "a \<equiv> Min (set (valid_idx lo hi xs))" and "b \<equiv> Max (set (valid_idx lo hi xs))"
  shows "a \<le> b" and "b < length xs"
    and "in_range lo hi (xs ! a)" and "in_range lo hi (xs ! b)"
    and "\<forall>i<length xs. in_range lo hi (xs ! i) \<longrightarrow> a \<le> i \<and> i \<le> b"
proof -
  let ?V = "set (valid_idx lo hi xs)"
  have ne: "?V \<noteq> {}" and fin: "finite ?V" using assms(1) by simp_all
  have am: "a \<in> ?V" unfolding a_def by (rule Min_in[OF fin ne])
  have bm: "b \<in> ?V" unfolding b_def by (rule Max_in[OF fin ne])
  show "a \<le> b" unfolding a_def b_def using fin ne by (simp add: Min_le_iff)
  show "b < length xs" using bm unfolding set_valid_idx by simp
  show "in_range lo hi (xs ! a)" using am unfolding set_valid_idx by simp
  show "in_range lo hi (xs ! b)" using bm unfolding set_valid_idx by simp
  show "\<forall>i<length xs. in_range lo hi (xs ! i) \<longrightarrow> a \<le> i \<and> i \<le> b"
  proof (intro allI impI)
    fix i assume "i < length xs" "in_range lo hi (xs ! i)"
    then have "i \<in> ?V" unfolding set_valid_idx by simp
    then show "a \<le> i \<and> i \<le> b" unfolding a_def b_def using fin by simp
  qed
qed

lemma monotone_between:
  assumes "monotone_vec xs" and "a \<le> i" and "i \<le> b" and "b < length xs"
    and "in_range lo hi (xs ! a)" and "in_range lo hi (xs ! b)"
  shows "in_range lo hi (xs ! i)"
proof -
  from assms(1) consider "sorted xs" | "sorted (rev xs)" by (auto simp: monotone_vec_def)
  then show ?thesis
  proof cases
    case 1
    have "xs ! a \<le> xs ! i" using 1 assms(2,3,4) by (intro sorted_nth_mono) auto
    moreover have "xs ! i \<le> xs ! b" using 1 assms(3,4) by (intro sorted_nth_mono) auto
    ultimately show ?thesis using assms(5,6) by (simp add: in_range_def)
  next
    case 2
    have "xs ! i \<le> xs ! a" using 2 assms(2,3,4) by (intro sorted_rev_nth_mono) auto
    moreover have "xs ! b \<le> xs ! i" using 2 assms(3,4) by (intro sorted_rev_nth_mono) auto
    ultimately show ?thesis using assms(5,6) by (simp add: in_range_def)
  qed
qed

lemma load_file_unfold:
  assumes "RangeEndingDate f = Some date_wanted"
    and "NearNadir_Composite_Snow_Free f = Some raw"
    and "lat_field f = Some lat_data" and "lon_field f = Some lon_data"
  shows "load_file date_wanted (south, north, west, east) f =
     (if valid_idx west east lon_data = [] \<or> valid_idx south north lat_data = [] then Inr None
      else Inr (Some
        (slice2 (Min (set (valid_idx south north lat_data)))
                (Suc (Max (set (valid_idx south north lat_data))))
                (Min (set (valid_idx west east lon_data)))
                (Suc (Max (set (valid_idx west east lon_data)))) (amap mask_invalid raw),
         slice (Min (set (valid_idx south north lat_data)))
               (Suc (Max (set (valid_idx south north lat_data)))) lat_data,
         slice (Min (set (valid_idx west east lon_data)))
               (Suc (Max (set (valid_idx west east lon_data)))) lon_data)))"
  using assms by (simp add: load_file_def Let_def)

lemma load_file_error: "load_file date_wanted coords f = Inl e \<Longrightarrow> e = KeyError"
  by (auto simp: load_file_def Let_def split: prod.splits option.splits if_splits)

lemma index_range_valid:
  assumes "valid_idx lo hi xs \<noteq> []"
  shows "index_range lo hi xs (Min (set (valid_idx lo hi xs))) (Max (set (valid_idx lo hi xs)))"
  unfolding index_range_def using valid_idx_ends[OF assms] by blast

lemma index_range_monotone:
  assumes "index_range lo hi xs a b" and "monotone_vec xs"
  shows "\<forall>x\<in>set (map ((!) xs) [a..<Suc b]). in_range lo hi x"
proof
  fix x assume "x \<in> set (map ((!) xs) [a..<Suc b])"
  then obtain i where i: "a \<le> i" "i \<le> b" "x = xs ! i" by auto
  from assms(1) have "b < length xs" "in_range lo hi (xs ! a)" "in_range lo hi (xs ! b)"
    by (simp_all add: index_range_def)
  with monotone_between[OF assms(2) i(1,2)] i(3) show "in_range lo hi x" by simp
qed

lemma load_file_cropped:
  assumes "RangeEndingDate f = Some date_wanted"
    and "NearNadir_Composite_Snow_Free f = Some raw"
    and "lat_field f = Some lat_data" and "lon_field f = Some lon_data"
  shows "(load_file date_wanted (south, north, west, east) f = Inr None \<longleftrightarrow>
            (\<forall>x\<in>set lat_data. \<not> in_range south north x) \<or>
            (\<forall>x\<in>set lon_data. \<not> in_range west east x))"
    and "load_file date_wanted (south, north, west, east) f = Inr (Some t) \<Longrightarrow>
           cropped (south, north, west, east) raw lat_data lon_data t"
proof -
  note u = load_file_unfold[OF assms, of south north west east]
  show "(load_file date_wanted (south, north, west, east) f = Inr None \<longleftrightarrow>
            (\<forall>x\<in>set lat_data. \<not> in_range south north x) \<or>
            (\<forall>x\<in>set lon_data. \<not> in_range west east x))"
    unfolding u using valid_idx_Nil[of south north lat_data] valid_idx_Nil[of west east lon_data]
    by auto
  assume t: "load_file date_wanted (south, north, west, east) f = Inr (Some t)"
  let ?a = "Min (set (valid_idx south north lat_data))"
  let ?b = "Max (set (valid_idx south north lat_data))"
  let ?c = "Min (set (valid_idx west east lon_data))"
  let ?d = "Max (set (valid_idx west east lon_data))"
  from t have ne: "valid_idx south north lat_data \<noteq> []" "valid_idx west east lon_data \<noteq> []"
    unfolding u by (auto split: if_splits)
  have ra: "index_range south north lat_data ?a ?b" by (rule index_range_valid[OF ne(1)])
  have rc: "index_range west east lon_data ?c ?d" by (rule index_range_valid[OF ne(2)])
  have lb: "Suc ?b \<le> length lat_data" and ld: "Suc ?d \<le> length lon_data"
    using ra rc by (simp_all add: index_range_def)
  have te: "t = (slice2 ?a (Suc ?b) ?c (Suc ?d) (amap mask_invalid raw),
                 map ((!) lat_data) [?a..<Suc ?b], map ((!) lon_data) [?c..<Suc ?d])"
    using t ne unfolding u by (simp add: slice_map_nth[OF lb] slice_map_nth[OF ld])
  have ma: "monotone_vec lat_data \<longrightarrow> (\<forall>x\<in>set (fst (snd t)). in_range south north x)"
    using index_range_monotone[OF ra] by (simp add: te)
  have mc: "monotone_vec lon_data \<longrightarrow> (\<forall>x\<in>set (snd (snd t)). in_range west east x)"
    using index_range_monotone[OF rc] by (simp add: te)
  show "cropped (south, north, west, east) raw lat_data lon_data t"
    unfolding cropped_def using ra rc te ma mc by auto
qed

lemma load_loop_eq:
  "load_loop d c files acc =
     (if \<exists>f\<in>set files. load_file d c f = Inl KeyError then Inl KeyError
      else Inr (acc @ List.map_filter (file_tile d c) files))"
proof (induction files arbitrary: acc)
  case Nil
  show ?case by (simp add: List.map_filter_simps)
next
  case (Cons f files)
  show ?case
  proof (cases "load_file d c f")
    case (Inl e)
    then have "e = KeyError" by (rule load_file_error)
    with Inl show ?thesis by simp
  next
    case (Inr r)
    then have ft: "file_tile d c f = r" by (simp add: file_tile_def)
    with Inr show ?thesis
      by (cases r) (simp_all add: Cons.IH List.map_filter_simps)
  qed
qed

lemma load_data_for_date_eq:
  "load_data_for_date d c files =
     (if \<exists>f\<in>set files. load_file d c f = Inl KeyError then Inl KeyError
      else Inr (sort_key tile_key (List.map_filter (file_tile d c) files)))"
  by (simp add: load_data_for_date_def load_loop_eq)

lemma load_file_fields:
  assumes "load_file d c f \<noteq> Inl KeyError"
  shows "\<exists>date. RangeEndingDate f = Some date \<and>
           (date = d \<longrightarrow> (\<exists>raw lat_data lon_data. NearNadir_Composite_Snow_Free f = Some raw \<and>
               lat_field f = Some lat_data \<and> lon_field f = Some lon_data))"
  using assms by (auto simp: load_file_def split: prod.splits option.splits if_splits)

lemma load_file_other_date:
  "RangeEndingDate f = Some date \<Longrightarrow> date \<noteq> d \<Longrightarrow> load_file d c f = Inr None"
  by (simp add: load_file_def split: prod.splits)

lemma mset_map_filter_cong:
  "mset xs = mset ys \<Longrightarrow> mset (List.map_filter g xs) = mset (List.map_filter g ys)"
  by (simp add: List.map_filter_def)


text \<open>
  C3, as amended. When \<open>load_data_for_date\<close> returns, its tiles are the tiles that the
  files contribute (sorted). A file of another date contributes none. A file of the wanted
  date contributes none, without an error, exactly when no latitude or no longitude lies
  within its bounds; otherwise its tile is the grid (negatives masked) and the two
  coordinate vectors cut to the index range from the first to the last index within the
  bounds, both included. Where a coordinate vector is monotone, every coordinate kept lies
  within its bounds.
\<close>

theorem load_data_for_date_trim:
  assumes "load_data_for_date date_wanted (south, north, west, east) files = Inr ts"
  shows "mset ts = mset (List.map_filter (file_tile date_wanted (south, north, west, east)) files)
       \<and> (\<forall>f\<in>set files. \<exists>date. RangeEndingDate f = Some date \<and>
            (date \<noteq> date_wanted \<longrightarrow> file_tile date_wanted (south, north, west, east) f = None) \<and>
            (date = date_wanted \<longrightarrow>
               (\<exists>raw lat_data lon_data.
                  NearNadir_Composite_Snow_Free f = Some raw \<and>
                  lat_field f = Some lat_data \<and> lon_field f = Some lon_data \<and>
                  (file_tile date_wanted (south, north, west, east) f = None \<longleftrightarrow>
                     (\<forall>x\<in>set lat_data. \<not> in_range south north x) \<or>
                     (\<forall>x\<in>set lon_data. \<not> in_range west east x)) \<and>
                  (\<forall>t. file_tile date_wanted (south, north, west, east) f = Some t \<longrightarrow>
                     (\<exists>a b c d.
                        index_range south north lat_data a b \<and> index_range west east lon_data c d \<and>
                        t = (slice2 a (Suc b) c (Suc d) (amap mask_invalid raw),
                             map ((!) lat_data) [a..<Suc b], map ((!) lon_data) [c..<Suc d]) \<and>
                        (monotone_vec lat_data \<longrightarrow> (\<forall>x\<in>set (fst (snd t)). in_range south north x)) \<and>
                        (monotone_vec lon_data \<longrightarrow> (\<forall>x\<in>set (snd (snd t)). in_range west east x)))))))"
proof -
  let ?c = "(south, north, west, east)"
  note e = load_data_for_date_eq[of date_wanted ?c files]
  from assms have ok: "\<forall>f\<in>set files. load_file date_wanted ?c f \<noteq> Inl KeyError"
    unfolding e by (auto split: if_splits)
  from assms ok have ts: "ts = sort_key tile_key (List.map_filter (file_tile date_wanted ?c) files)"
    unfolding e by (auto split: if_splits)
  have a: "mset ts = mset (List.map_filter (file_tile date_wanted ?c) files)"
    by (simp add: ts)
  have b: "\<exists>date. RangeEndingDate f = Some date \<and>
            (date \<noteq> date_wanted \<longrightarrow> file_tile date_wanted ?c f = None) \<and>
            (date = date_wanted \<longrightarrow>
               (\<exists>raw lat_data lon_data.
                  NearNadir_Composite_Snow_Free f = Some raw \<and>
                  lat_field f = Some lat_data \<and> lon_field f = Some lon_data \<and>
                  (file_tile date_wanted ?c f = None \<longleftrightarrow>
                     (\<forall>x\<in>set lat_data. \<not> in_range south north x) \<or>
                     (\<forall>x\<in>set lon_data. \<not> in_range west east x)) \<and>
                  (\<forall>t. file_tile date_wanted ?c f = Some t \<longrightarrow>
                     cropped ?c raw lat_data lon_data t)))"
    if f: "f \<in> set files" for f
  proof -
    from ok f have nk: "load_file date_wanted ?c f \<noteq> Inl KeyError" by blast
    from load_file_fields[OF nk] obtain date where
      d: "RangeEndingDate f = Some date"
      and fl: "date = date_wanted \<longrightarrow> (\<exists>raw lat_data lon_data.
                 NearNadir_Composite_Snow_Free f = Some raw \<and>
                 lat_field f = Some lat_data \<and> lon_field f = Some lon_data)"
      by blast
    have o: "file_tile date_wanted ?c f = None" if "date \<noteq> date_wanted"
      using load_file_other_date[OF d that] by (simp add: file_tile_def)
    have m: "\<exists>raw lat_data lon_data.
                  NearNadir_Composite_Snow_Free f = Some raw \<and>
                  lat_field f = Some lat_data \<and> lon_field f = Some lon_data \<and>
                  (file_tile date_wanted ?c f = None \<longleftrightarrow>
                     (\<forall>x\<in>set lat_data. \<not> in_range south north x) \<or>
                     (\<forall>x\<in>set lon_data. \<not> in_range west east x)) \<and>
                  (\<forall>t. file_tile date_wanted ?c f = Some t \<longrightarrow>
                     cropped ?c raw lat_data lon_data t)"
      if eq: "date = date_wanted"
    proof -
      from fl eq obtain raw lat_data lon_data where
        fs: "NearNadir_Composite_Snow_Free f = Some raw"
            "lat_field f = Some lat_data" "lon_field f = Some lon_data"
        by blast
      have d': "RangeEndingDate f = Some date_wanted" using d eq by simp
      obtain r where r: "load_file date_wanted ?c f = Inr r"
        using nk load_file_error[of date_wanted ?c f] by (cases "load_file date_wanted ?c f") auto
      have ft: "file_tile date_wanted ?c f = r" by (simp add: file_tile_def r)
      have s1: "file_tile date_wanted ?c f = None \<longleftrightarrow>
                     (\<forall>x\<in>set lat_data. \<not> in_range south north x) \<or>
                     (\<forall>x\<in>set lon_data. \<not> in_range west east x)"
        using load_file_cropped(1)[OF d' fs, of south north west east] by (simp add: ft r)
      have s2: "\<forall>t. file_tile date_wanted ?c f = Some t \<longrightarrow> cropped ?c raw lat_data lon_data t"
        using load_file_cropped(2)[OF d' fs, of south north west east] by (simp add: ft r)
      show ?thesis
        by (rule exI[of _ raw], rule exI[of _ lat_data], rule exI[of _ lon_data])
          (intro conjI fs s1 s2)
    qed
    show ?thesis
      by (rule exI[of _ date]) (intro conjI impI d o m)
  qed
  note b' = b[unfolded cropped_def prod.case]
  show ?thesis
    by (intro conjI ballI a b')
qed

theorem load_data_for_date_trim_witness:
  "load_data_for_date ''2023-04-01'' (10, 23 / 2, 21, 39) [\<lparr>RangeEndingDate = Some ''2023-04-01'',
        NearNadir_Composite_Snow_Free =
          Some \<lparr>ncols = 3, rows = [[Fin 1, Fin 2, Fin 3], [Fin 4, Fin (- 1), Fin 6],
                                     [Fin 7, Fin 8, Fin 9], [Fin 10, Fin 11, Fin 12]]\<rparr>,
        lat_field = Some [12, 11, 10, 9], lon_field = Some [20, 21, 22]\<rparr>] = Inr [(\<lparr>ncols = 2, rows = [[NaN, Fin 6], [Fin 8, Fin 9]]\<rparr>, [11, 10], [21, 22])]
   \<and> monotone_vec [12, 11, 10, 9] \<and> monotone_vec [20, 21, 22]
   \<and> list_all (in_range 10 (23 / 2)) [11, 10]
   \<and> list_all (in_range 21 39) [21, 22]"
proof -
  let ?f = "\<lparr>RangeEndingDate = Some ''2023-04-01'',
        NearNadir_Composite_Snow_Free =
          Some \<lparr>ncols = 3, rows = [[Fin 1, Fin 2, Fin 3], [Fin 4, Fin (- 1), Fin 6],
                                     [Fin 7, Fin 8, Fin 9], [Fin 10, Fin 11, Fin 12]]\<rparr>,
        lat_field = Some [12, 11, 10, 9], lon_field = Some [20, 21, 22]\<rparr>"
  let ?t = "(\<lparr>ncols = 2, rows = [[NaN, Fin 6], [Fin 8, Fin 9]]\<rparr>, [11, 10], [21, 22]) :: tile"
  let ?c = "(10, 23 / 2, 21, 39) :: bbox"
  have h: "load_data_for_date ''2023-04-01'' ?c [?f] = Inr [?t]" by code_simp
  have m1: "monotone_vec [12, 11, 10, 9]" and m2: "monotone_vec [20, 21, 22]"
    by (simp_all add: monotone_vec_def)
  have ft: "file_tile ''2023-04-01'' ?c ?f = Some ?t" by code_simp
  from load_data_for_date_trim[OF h]
  have "\<exists>raw lat_data lon_data.
          NearNadir_Composite_Snow_Free ?f = Some raw \<and>
          lat_field ?f = Some lat_data \<and> lon_field ?f = Some lon_data \<and>
          (\<forall>t. file_tile ''2023-04-01'' ?c ?f = Some t \<longrightarrow>
             (\<exists>a b c d.
                index_range 10 (23 / 2) lat_data a b \<and> index_range 21 39 lon_data c d \<and>
                t = (slice2 a (Suc b) c (Suc d) (amap mask_invalid raw),
                     map ((!) lat_data) [a..<Suc b], map ((!) lon_data) [c..<Suc d]) \<and>
                (monotone_vec lat_data \<longrightarrow> (\<forall>x\<in>set (fst (snd t)). in_range 10 (23 / 2) x)) \<and>
                (monotone_vec lon_data \<longrightarrow> (\<forall>x\<in>set (snd (snd t)). in_range 21 39 x))))"
    by simp
  then obtain raw lat_data lon_data where
    fl: "lat_field ?f = Some lat_data" "lon_field ?f = Some lon_data"
    and cr: "monotone_vec lat_data \<longrightarrow> (\<forall>x\<in>set (fst (snd ?t)). in_range 10 (23 / 2) x)"
            "monotone_vec lon_data \<longrightarrow> (\<forall>x\<in>set (snd (snd ?t)). in_range 21 39 x)"
    using ft by blast
  from fl have "lat_data = [12, 11, 10, 9]" "lon_data = [20, 21, 22]" by simp_all
  with cr m1 m2 have "(\<forall>x\<in>set (fst (snd ?t)). in_range 10 (23 / 2) x)
       \<and> (\<forall>x\<in>set (snd (snd ?t)). in_range 21 39 x)"
    by blast
  then have "list_all (in_range 10 (23 / 2)) [11, 10] \<and> list_all (in_range 21 39) [21, 22]"
    by (simp add: list_all_iff)
  with h m1 m2 show ?thesis by blast
qed

text \<open>
  The claim as stated fails on a coordinate vector that is not monotone: the index range
  from the first to the last latitude within the bounds keeps the latitude 50 between them.
\<close>

theorem load_trim_counterexample:
  "load_data_for_date ''2023-04-01'' (9, 23, 21, 39)
       [\<lparr>RangeEndingDate = Some ''2023-04-01'',
         NearNadir_Composite_Snow_Free =
           Some \<lparr>ncols = 2, rows = [[Fin 1, Fin 2], [Fin 3, Fin 4], [Fin 5, Fin 6]]\<rparr>,
         lat_field = Some [10, 50, 12], lon_field = Some [21, 22]\<rparr>]
     = Inr [(\<lparr>ncols = 2, rows = [[Fin 1, Fin 2], [Fin 3, Fin 4], [Fin 5, Fin 6]]\<rparr>,
             [10, 50, 12], [21, 22])]
   \<and> (9::real) \<le> 23 \<and> (21::real) \<le> 39
   \<and> \<not> in_range 9 23 50"
  by code_simp

text \<open>
  C9, as amended. For two discovery orders of the same files, \<open>load_data_for_date\<close> fails
  for both or returns for both the same tiles, sorted by first latitude, then first
  longitude. Tiles with the same key keep their discovery order, so the two results are
  identical when no two tiles share both their first latitude and their first longitude.
\<close>

theorem load_data_for_date_order:
  assumes "mset files' = mset files"
  shows "(\<forall>e. load_data_for_date d c files = Inl e \<longleftrightarrow> load_data_for_date d c files' = Inl e)
       \<and> (\<forall>ts. load_data_for_date d c files = Inr ts \<longrightarrow>
            sorted (map tile_key ts) \<and>
            (\<forall>k. filter (\<lambda>t. tile_key t = k) ts =
                  filter (\<lambda>t. tile_key t = k) (List.map_filter (file_tile d c) files)) \<and>
            (\<exists>ts'. load_data_for_date d c files' = Inr ts' \<and> mset ts' = mset ts \<and>
               (distinct (map tile_key ts) \<longrightarrow> ts' = ts)))"
proof -
  let ?xs = "List.map_filter (file_tile d c) files"
  let ?ys = "List.map_filter (file_tile d c) files'"
  have st: "set files' = set files" using assms by (rule mset_eq_setD)
  have ms: "mset ?ys = mset ?xs" using assms by (rule mset_map_filter_cong)
  note e = load_data_for_date_eq[of d c files]
  note e' = load_data_for_date_eq[of d c files']
  have a: "\<forall>e. load_data_for_date d c files = Inl e \<longleftrightarrow> load_data_for_date d c files' = Inl e"
    unfolding e e' st by auto
  have b: "sorted (map tile_key ts) \<and>
            (\<forall>k. filter (\<lambda>t. tile_key t = k) ts = filter (\<lambda>t. tile_key t = k) ?xs) \<and>
            (\<exists>ts'. load_data_for_date d c files' = Inr ts' \<and> mset ts' = mset ts \<and>
               (distinct (map tile_key ts) \<longrightarrow> ts' = ts))"
    if h: "load_data_for_date d c files = Inr ts" for ts
  proof -
    from h have ok: "\<not> (\<exists>f\<in>set files. load_file d c f = Inl KeyError)"
      and ts: "ts = sort_key tile_key ?xs"
      unfolding e by (auto split: if_splits)
    have r': "load_data_for_date d c files' = Inr (sort_key tile_key ?ys)"
      unfolding e' st using ok by simp
    have s: "sorted (map tile_key ts)" by (simp add: ts)
    have k: "\<forall>k. filter (\<lambda>t. tile_key t = k) ts = filter (\<lambda>t. tile_key t = k) ?xs"
      by (simp add: ts sort_key_stable)
    have m: "mset (sort_key tile_key ?ys) = mset ts" by (simp add: ts ms)
    have u: "sort_key tile_key ?ys = ts" if dk: "distinct (map tile_key ts)"
    proof (rule sort_key_inj_key_eq)
      show "mset ?ys = mset ts" by (simp add: ts ms)
      have "set ?ys = set ts" using mset_eq_setD[OF ms] by (simp add: ts)
      with dk show "inj_on tile_key (set ?ys)" by (simp add: distinct_map)
      show "sorted (map tile_key ts)" by (rule s)
    qed
    have x: "\<exists>ts'. load_data_for_date d c files' = Inr ts' \<and> mset ts' = mset ts \<and>
               (distinct (map tile_key ts) \<longrightarrow> ts' = ts)"
      by (rule exI[of _ "sort_key tile_key ?ys"]) (intro conjI impI r' m u)
    show ?thesis
      by (intro conjI s k x)
  qed
  show ?thesis
    by (intro conjI allI impI a[rule_format] b[THEN conjunct1] b[THEN conjunct2, THEN conjunct1, rule_format] b[THEN conjunct2, THEN conjunct2])
qed

theorem load_data_for_date_order_witness:
  "mset [\<lparr>RangeEndingDate = Some ''2023-04-01'',
        NearNadir_Composite_Snow_Free = Some \<lparr>ncols = 2, rows = [[Fin 3, Fin 4]]\<rparr>,
        lat_field = Some [10], lon_field = Some [30, 31]\<rparr>, \<lparr>RangeEndingDate = Some ''2023-04-01'',
        NearNadir_Composite_Snow_Free = Some \<lparr>ncols = 2, rows = [[Fin 1, Fin 2]]\<rparr>,
        lat_field = Some [10], lon_field = Some [21, 22]\<rparr>] = mset [\<lparr>RangeEndingDate = Some ''2023-04-01'',
        NearNadir_Composite_Snow_Free = Some \<lparr>ncols = 2, rows = [[Fin 1, Fin 2]]\<rparr>,
        lat_field = Some [10], lon_field = Some [21, 22]\<rparr>, \<lparr>RangeEndingDate = Some ''2023-04-01'',
        NearNadir_Composite_Snow_Free = Some \<lparr>ncols = 2, rows = [[Fin 3, Fin 4]]\<rparr>,
        lat_field = Some [10], lon_field = Some [30, 31]\<rparr>]
   \<and> load_data_for_date ''2023-04-01'' (9, 23, 21, 39) [\<lparr>RangeEndingDate = Some ''2023-04-01'',
        NearNadir_Composite_Snow_Free = Some \<lparr>ncols = 2, rows = [[Fin 1, Fin 2]]\<rparr>,
        lat_field = Some [10], lon_field = Some [21, 22]\<rparr>, \<lparr>RangeEndingDate = Some ''2023-04-01'',
        NearNadir_Composite_Snow_Free = Some \<lparr>ncols = 2, rows = [[Fin 3, Fin 4]]\<rparr>,
        lat_field = Some [10], lon_field = Some [30, 31]\<rparr>] = Inr [(\<lparr>ncols = 2, rows = [[Fin 1, Fin 2]]\<rparr>, [10], [21, 22]), (\<lparr>ncols = 2, rows = [[Fin 3, Fin 4]]\<rparr>, [10], [30, 31])]
   \<and> distinct (map tile_key [(\<lparr>ncols = 2, rows = [[Fin 1, Fin 2]]\<rparr>, [10], [21, 22]), (\<lparr>ncols = 2, rows = [[Fin 3, Fin 4]]\<rparr>, [10], [30, 31])])
   \<and> load_data_for_date ''2023-04-01'' (9, 23, 21, 39) [\<lparr>RangeEndingDate = Some ''2023-04-01'',
        NearNadir_Composite_Snow_Free = Some \<lparr>ncols = 2, rows = [[Fin 3, Fin 4]]\<rparr>,
        lat_field = Some [10], lon_field = Some [30, 31]\<rparr>, \<lparr>RangeEndingDate = Some ''2023-04-01'',
        NearNadir_Composite_Snow_Free = Some \<lparr>ncols = 2, rows = [[Fin 1, Fin 2]]\<rparr>,
        lat_field = Some [10], lon_field = Some [21, 22]\<rparr>] = Inr [(\<lparr>ncols = 2, rows = [[Fin 1, Fin 2]]\<rparr>, [10], [21, 22]), (\<lparr>ncols = 2, rows = [[Fin 3, Fin 4]]\<rparr>, [10], [30, 31])]"
proof -
  let ?fa = "\<lparr>RangeEndingDate = Some ''2023-04-01'',
        NearNadir_Composite_Snow_Free = Some \<lparr>ncols = 2, rows = [[Fin 1, Fin 2]]\<rparr>,
        lat_field = Some [10], lon_field = Some [21, 22]\<rparr>" and ?fb = "\<lparr>RangeEndingDate = Some ''2023-04-01'',
        NearNadir_Composite_Snow_Free = Some \<lparr>ncols = 2, rows = [[Fin 3, Fin 4]]\<rparr>,
        lat_field = Some [10], lon_field = Some [30, 31]\<rparr>"
  let ?ta = "(\<lparr>ncols = 2, rows = [[Fin 1, Fin 2]]\<rparr>, [10], [21, 22]) :: tile" and ?tb = "(\<lparr>ncols = 2, rows = [[Fin 3, Fin 4]]\<rparr>, [10], [30, 31]) :: tile"
  let ?c = "(9, 23, 21, 39) :: bbox"
  have hm: "mset [?fb, ?fa] = mset [?fa, ?fb]" by (simp add: add_mset_commute)
  have h: "load_data_for_date ''2023-04-01'' ?c [?fa, ?fb] = Inr [?ta, ?tb]" by code_simp
  have dk: "distinct (map tile_key [?ta, ?tb])" by (simp add: tile_key_def)
  from load_data_for_date_order[OF hm, of "''2023-04-01''" ?c] h
  obtain ts' where "load_data_for_date ''2023-04-01'' ?c [?fb, ?fa] = Inr ts'"
    and "distinct (map tile_key [?ta, ?tb]) \<longrightarrow> ts' = [?ta, ?tb]"
    by blast
  with dk have "load_data_for_date ''2023-04-01'' ?c [?fb, ?fa] = Inr [?ta, ?tb]" by simp
  with hm h dk show ?thesis by blast
qed

text \<open>
  The claim as stated fails on two files of the same date with the same coordinates and
  different data: each discovery order returns the tiles in that order.
\<close>

theorem load_order_counterexample:
  "load_data_for_date ''2023-04-01'' (9, 23, 21, 39) [\<lparr>RangeEndingDate = Some ''2023-04-01'',
        NearNadir_Composite_Snow_Free = Some \<lparr>ncols = 2, rows = [[Fin 1, Fin 2]]\<rparr>,
        lat_field = Some [10], lon_field = Some [21, 22]\<rparr>, \<lparr>RangeEndingDate = Some ''2023-04-01'',
        NearNadir_Composite_Snow_Free = Some \<lparr>ncols = 2, rows = [[Fin 5, Fin 6]]\<rparr>,
        lat_field = Some [10], lon_field = Some [21, 22]\<rparr>] = Inr [(\<lparr>ncols = 2, rows = [[Fin 1, Fin 2]]\<rparr>, [10], [21, 22]), (\<lparr>ncols = 2, rows = [[Fin 5, Fin 6]]\<rparr>, [10], [21, 22])]
   \<and> load_data_for_date ''2023-04-01'' (9, 23, 21, 39) [\<lparr>RangeEndingDate = Some ''2023-04-01'',
        NearNadir_Composite_Snow_Free = Some \<lparr>ncols = 2, rows = [[Fin 5, Fin 6]]\<rparr>,
        lat_field = Some [10], lon_field = Some [21, 22]\<rparr>, \<lparr>RangeEndingDate = Some ''2023-04-01'',
        NearNadir_Composite_Snow_Free = Some \<lparr>ncols = 2, rows = [[Fin 1, Fin 2]]\<rparr>,
        lat_field = Some [10], lon_field = Some [21, 22]\<rparr>] = Inr [(\<lparr>ncols = 2, rows = [[Fin 5, Fin 6]]\<rparr>, [10], [21, 22]), (\<lparr>ncols = 2, rows = [[Fin 1, Fin 2]]\<rparr>, [10], [21, 22])]
   \<and> [(\<lparr>ncols = 2, rows = [[Fin 1, Fin 2]]\<rparr>, [10], [21, 22]), (\<lparr>ncols = 2, rows = [[Fin 5, Fin 6]]\<rparr>, [10], [21, 22])] \<noteq> [(\<lparr>ncols = 2, rows = [[Fin 5, Fin 6]]\<rparr>, [10], [21, 22]), ((\<lparr>ncols = 2, rows = [[Fin 1, Fin 2]]\<rparr>, [10], [21, 22]) :: tile)]"
  by code_simp

section \<open>Properties of get_difference_data\<close>

lemma broadcast2_Inl_iff:
  "broadcast2 f a b = Inl e \<longleftrightarrow> e = ValueError \<and> \<not> broadcastable a b"
  by (auto simp: broadcast2_def broadcastable_def split: option.splits)

lemma difference_tile_Inl:
  "difference_tile relative t1 t2 = Inl e \<longleftrightarrow> e = ValueError \<and> \<not> broadcastable (fst t2) (fst t1)"
proof -
  obtain l1 la lo where t1: "t1 = (l1, la, lo)" by (cases t1)
  obtain l2 la2 lo2 where t2: "t2 = (l2, la2, lo2)" by (cases t2)
  let ?den = "amap (\<lambda>v. if feq0 v then Fin (- 1) else v) l1"
  have s: "broadcastable l2 ?den = broadcastable l2 l1"
    by (simp add: broadcastable_def nrows_amap ncols_amap)
  show ?thesis
  proof (cases relative)
    case True
    then have "difference_tile relative t1 t2 = Inl e \<longleftrightarrow> broadcast2 fdiv l2 ?den = Inl e"
      by (simp add: difference_tile_def t1 t2 split: sum.splits)
    then show ?thesis by (simp add: broadcast2_Inl_iff s t1 t2)
  next
    case False
    then have "difference_tile relative t1 t2 = Inl e \<longleftrightarrow> broadcast2 fsub l2 l1 = Inl e"
      by (simp add: difference_tile_def t1 t2 split: sum.splits)
    then show ?thesis by (simp add: broadcast2_Inl_iff t1 t2)
  qed
qed

lemma difference_tile_total:
  "broadcastable (fst t2) (fst t1) \<Longrightarrow> \<exists>d. difference_tile relative t1 t2 = Inr d"
  using difference_tile_Inl[of relative t1 t2]
  by (cases "difference_tile relative t1 t2") auto

lemma difference_tile_coords:
  "difference_tile relative t1 t2 = Inr d \<Longrightarrow> snd d = snd t1"
  by (cases t1; cases t2) (auto simp: difference_tile_def split: sum.splits)

lemma difference_tile_absolute:
  "difference_tile False t1 t2 = Inr d \<Longrightarrow> broadcast2 fsub (fst t2) (fst t1) = Inr (fst d)"
  by (cases t1; cases t2) (auto simp: difference_tile_def split: sum.splits)

lemma difference_tile_relative:
  "difference_tile True t1 t2 = Inr d \<Longrightarrow>
   broadcast2 fdiv (fst t2) (amap (\<lambda>v. if feq0 v then Fin (- 1) else v) (fst t1)) = Inr (fst d)"
  by (cases t1; cases t2) (auto simp: difference_tile_def split: sum.splits)

lemma difference_loop_Inr:
  "difference_loop relative ps acc = Inr ds \<Longrightarrow>
   \<exists>ds'. ds = acc @ ds' \<and>
         list_all2 (\<lambda>p d. difference_tile relative (fst p) (snd p) = Inr d) ps ds'"
proof (induction ps arbitrary: acc)
  case Nil
  then show ?case by simp
next
  case (Cons p ps)
  obtain t1 t2 where p: "p = (t1, t2)" by (cases p)
  from Cons.prems p obtain d where d: "difference_tile relative t1 t2 = Inr d"
    and r: "difference_loop relative ps (acc @ [d]) = Inr ds"
    by (auto split: sum.splits)
  from Cons.IH[OF r] obtain ds' where "ds = (acc @ [d]) @ ds'"
    and "list_all2 (\<lambda>p d. difference_tile relative (fst p) (snd p) = Inr d) ps ds'"
    by blast
  then have "ds = acc @ (d # ds') \<and>
     list_all2 (\<lambda>p d. difference_tile relative (fst p) (snd p) = Inr d) (p # ps) (d # ds')"
    using d p by simp
  then show ?case by (rule exI)
qed

lemma difference_loop_total:
  "\<forall>p\<in>set ps. broadcastable (fst (snd p)) (fst (fst p)) \<Longrightarrow>
   \<exists>ds. difference_loop relative ps acc = Inr ds"
proof (induction ps arbitrary: acc)
  case Nil
  show ?case by simp
next
  case (Cons p ps)
  obtain t1 t2 where p: "p = (t1, t2)" by (cases p)
  from Cons.prems p obtain d where d: "difference_tile relative t1 t2 = Inr d"
    using difference_tile_total[of t2 t1 relative] by auto
  from Cons.prems have "\<forall>p\<in>set ps. broadcastable (fst (snd p)) (fst (fst p))" by simp
  from Cons.IH[OF this, of "acc @ [d]"] show ?case by (simp add: p d)
qed

lemma difference_loop_error:
  "\<exists>p\<in>set ps. \<not> broadcastable (fst (snd p)) (fst (fst p)) \<Longrightarrow>
   difference_loop relative ps acc = Inl ValueError"
proof (induction ps arbitrary: acc)
  case Nil
  then show ?case by simp
next
  case (Cons p ps)
  obtain t1 t2 where p: "p = (t1, t2)" by (cases p)
  show ?case
  proof (cases "broadcastable (fst t2) (fst t1)")
    case True
    then obtain d where d: "difference_tile relative t1 t2 = Inr d"
      using difference_tile_total by blast
    from True Cons.prems p have "\<exists>p\<in>set ps. \<not> broadcastable (fst (snd p)) (fst (fst p))"
      by auto
    from Cons.IH[OF this, of "acc @ [d]"] show ?thesis by (simp add: p d)
  next
    case False
    then have "difference_tile relative t1 t2 = Inl ValueError"
      by (simp add: difference_tile_Inl)
    then show ?thesis by (simp add: p)
  qed
qed

lemma get_difference_data_eq:
  "get_difference_data dateEarly dateLater coords relative chunk_size normalize_flag files =
     (case single_mode_data dateEarly coords chunk_size normalize_flag files of
        Inl e \<Rightarrow> Inl e
      | Inr d1 \<Rightarrow>
          (case single_mode_data dateLater coords chunk_size normalize_flag files of
             Inl e \<Rightarrow> Inl e
           | Inr d2 \<Rightarrow> difference_loop relative (zip d1 d2) []))"
proof (cases "1 < chunk_size")
  case True
  then have c: "chunk_data dl chunk_size = Inr (List.map_filter (chunk_tile chunk_size) dl)" for dl
    by (intro chunk_data_eq) simp
  show ?thesis
    by (simp add: get_difference_data_def single_mode_data_def True c Let_def split: sum.splits)
next
  case False
  then show ?thesis
    by (simp add: get_difference_data_def single_mode_data_def Let_def split: sum.splits)
qed

lemma get_difference_data_pairs:
  assumes "single_mode_data dateEarly coords chunk_size normalize_flag files = Inr d1"
    and "single_mode_data dateLater coords chunk_size normalize_flag files = Inr d2"
    and "get_difference_data dateEarly dateLater coords relative chunk_size normalize_flag files = Inr ds"
  shows "length ds = min (length d1) (length d2)"
    and "i < length ds \<Longrightarrow> difference_tile relative (d1 ! i) (d2 ! i) = Inr (ds ! i)"
proof -
  from assms have "difference_loop relative (zip d1 d2) [] = Inr ds"
    by (simp add: get_difference_data_eq)
  from difference_loop_Inr[OF this]
  have l: "list_all2 (\<lambda>p d. difference_tile relative (fst p) (snd p) = Inr d) (zip d1 d2) ds"
    by simp
  from list_all2_lengthD[OF l] show n: "length ds = min (length d1) (length d2)" by simp
  assume i: "i < length ds"
  with n have "i < length (zip d1 d2)" by simp
  from list_all2_nthD[OF l this] i n
  show "difference_tile relative (d1 ! i) (d2 ! i) = Inr (ds ! i)" by simp
qed

text \<open>
  C6, as amended. With the two dates' tile sets after their independent processing: when
  the grids of every positional pair can be combined (their shapes are equal, or
  broadcasting accepts them), \<open>get_difference_data\<close> returns exactly as many tiles as
  the shorter set has, the \<open>i\<close>-th being the difference of the \<open>i\<close>-th tiles, and the
  surplus tiles of the longer set are ignored without an error. When the grids of some
  positional pair cannot be combined, it raises \<open>ValueError\<close>.
\<close>

theorem difference_pairing:
  assumes "single_mode_data dateEarly coords chunk_size normalize_flag files = Inr d1"
    and "single_mode_data dateLater coords chunk_size normalize_flag files = Inr d2"
  shows "((\<forall>i<min (length d1) (length d2). broadcastable (fst (d2 ! i)) (fst (d1 ! i))) \<longrightarrow>
            (\<exists>ds. get_difference_data dateEarly dateLater coords relative chunk_size normalize_flag files
                    = Inr ds \<and>
                  length ds = min (length d1) (length d2) \<and>
                  (\<forall>i<length ds. difference_tile relative (d1 ! i) (d2 ! i) = Inr (ds ! i))))
       \<and> ((\<exists>i<min (length d1) (length d2). \<not> broadcastable (fst (d2 ! i)) (fst (d1 ! i))) \<longrightarrow>
            get_difference_data dateEarly dateLater coords relative chunk_size normalize_flag files
              = Inl ValueError)"
proof -
  let ?g = "get_difference_data dateEarly dateLater coords relative chunk_size normalize_flag files"
  have g: "?g = difference_loop relative (zip d1 d2) []"
    by (simp add: get_difference_data_eq assms)
  have a: "\<exists>ds. ?g = Inr ds \<and> length ds = min (length d1) (length d2) \<and>
             (\<forall>i<length ds. difference_tile relative (d1 ! i) (d2 ! i) = Inr (ds ! i))"
    if c: "\<forall>i<min (length d1) (length d2). broadcastable (fst (d2 ! i)) (fst (d1 ! i))"
  proof -
    have "\<forall>p\<in>set (zip d1 d2). broadcastable (fst (snd p)) (fst (fst p))"
    proof
      fix p assume "p \<in> set (zip d1 d2)"
      then obtain k where k: "k < length d1" "k < length d2" "p = (d1 ! k, d2 ! k)"
        by (auto simp: in_set_zip)
      with c show "broadcastable (fst (snd p)) (fst (fst p))" by simp
    qed
    from difference_loop_total[OF this, of relative "[]"] obtain ds where ds: "?g = Inr ds"
      unfolding g by blast
    have "length ds = min (length d1) (length d2) \<and>
          (\<forall>i<length ds. difference_tile relative (d1 ! i) (d2 ! i) = Inr (ds ! i))"
      using get_difference_data_pairs[OF assms ds] by blast
    with ds show ?thesis by blast
  qed
  have b: "?g = Inl ValueError"
    if c: "\<exists>i<min (length d1) (length d2). \<not> broadcastable (fst (d2 ! i)) (fst (d1 ! i))"
  proof -
    from c obtain i where i: "i < length d1" "i < length d2"
      and n: "\<not> broadcastable (fst (d2 ! i)) (fst (d1 ! i))" by auto
    have "(d1 ! i, d2 ! i) \<in> set (zip d1 d2)"
      using i by (auto simp: in_set_zip)
    with n have "\<exists>p\<in>set (zip d1 d2). \<not> broadcastable (fst (snd p)) (fst (fst p))"
      by (intro bexI[of _ "(d1 ! i, d2 ! i)"]) simp_all
    from difference_loop_error[OF this] show ?thesis unfolding g .
  qed
  show ?thesis by (intro conjI impI a b)
qed

theorem difference_pairing_witness:
  "single_mode_data ''2023-04-01'' (9, 23, 21, 39) 1 False [\<lparr>RangeEndingDate = Some ''2023-04-01'',
        NearNadir_Composite_Snow_Free = Some \<lparr>ncols = 2, rows = [[Fin 1, Fin 2], [Fin 3, Fin 4]]\<rparr>,
        lat_field = Some [10, 11], lon_field = Some [21, 22]\<rparr>, \<lparr>RangeEndingDate = Some ''2023-04-01'',
        NearNadir_Composite_Snow_Free = Some \<lparr>ncols = 2, rows = [[Fin 5, Fin 6], [Fin 7, Fin 8]]\<rparr>,
        lat_field = Some [20, 21], lon_field = Some [21, 22]\<rparr>, \<lparr>RangeEndingDate = Some ''2023-05-01'',
        NearNadir_Composite_Snow_Free = Some \<lparr>ncols = 2, rows = [[Fin 2, Fin 2], [Fin 6, Fin 3]]\<rparr>,
        lat_field = Some [10, 11], lon_field = Some [21, 22]\<rparr>] = Inr [(\<lparr>ncols = 2, rows = [[Fin 1, Fin 2], [Fin 3, Fin 4]]\<rparr>, [10, 11], [21, 22]), (\<lparr>ncols = 2, rows = [[Fin 5, Fin 6], [Fin 7, Fin 8]]\<rparr>, [20, 21], [21, 22])]
   \<and> single_mode_data ''2023-05-01'' (9, 23, 21, 39) 1 False [\<lparr>RangeEndingDate = Some ''2023-04-01'',
        NearNadir_Composite_Snow_Free = Some \<lparr>ncols = 2, rows = [[Fin 1, Fin 2], [Fin 3, Fin 4]]\<rparr>,
        lat_field = Some [10, 11], lon_field = Some [21, 22]\<rparr>, \<lparr>RangeEndingDate = Some ''2023-04-01'',
        NearNadir_Composite_Snow_Free = Some \<lparr>ncols = 2, rows = [[Fin 5, Fin 6], [Fin 7, Fin 8]]\<rparr>,
        lat_field = Some [20, 21], lon_field = Some [21, 22]\<rparr>, \<lparr>RangeEndingDate = Some ''2023-05-01'',
        NearNadir_Composite_Snow_Free = Some \<lparr>ncols = 2, rows = [[Fin 2, Fin 2], [Fin 6, Fin 3]]\<rparr>,
        lat_field = Some [10, 11], lon_field = Some [21, 22]\<rparr>] = Inr [(\<lparr>ncols = 2, rows = [[Fin 2, Fin 2], [Fin 6, Fin 3]]\<rparr>, [10, 11], [21, 22])]
   \<and> get_difference_data ''2023-04-01'' ''2023-05-01'' (9, 23, 21, 39) False 1 False [\<lparr>RangeEndingDate = Some ''2023-04-01'',
        NearNadir_Composite_Snow_Free = Some \<lparr>ncols = 2, rows = [[Fin 1, Fin 2], [Fin 3, Fin 4]]\<rparr>,
        lat_field = Some [10, 11], lon_field = Some [21, 22]\<rparr>, \<lparr>RangeEndingDate = Some ''2023-04-01'',
        NearNadir_Composite_Snow_Free = Some \<lparr>ncols = 2, rows = [[Fin 5, Fin 6], [Fin 7, Fin 8]]\<rparr>,
        lat_field = Some [20, 21], lon_field = Some [21, 22]\<rparr>, \<lparr>RangeEndingDate = Some ''2023-05-01'',
        NearNadir_Composite_Snow_Free = Some \<lparr>ncols = 2, rows = [[Fin 2, Fin 2], [Fin 6, Fin 3]]\<rparr>,
        lat_field = Some [10, 11], lon_field = Some [21, 22]\<rparr>]
       = Inr [(\<lparr>ncols = 2, rows = [[Fin 1, Fin 0], [Fin 3, Fin (- 1)]]\<rparr>, [10, 11], [21, 22])]
   \<and> length [(\<lparr>ncols = 2, rows = [[Fin 1, Fin 0], [Fin 3, Fin (- 1)]]\<rparr>, [10, 11], [21, 22]) :: tile] = min (length [(\<lparr>ncols = 2, rows = [[Fin 1, Fin 2], [Fin 3, Fin 4]]\<rparr>, [10, 11], [21, 22]) :: tile, (\<lparr>ncols = 2, rows = [[Fin 5, Fin 6], [Fin 7, Fin 8]]\<rparr>, [20, 21], [21, 22])]) (length [(\<lparr>ncols = 2, rows = [[Fin 2, Fin 2], [Fin 6, Fin 3]]\<rparr>, [10, 11], [21, 22]) :: tile])"
proof -
  let ?fs = "[\<lparr>RangeEndingDate = Some ''2023-04-01'',
        NearNadir_Composite_Snow_Free = Some \<lparr>ncols = 2, rows = [[Fin 1, Fin 2], [Fin 3, Fin 4]]\<rparr>,
        lat_field = Some [10, 11], lon_field = Some [21, 22]\<rparr>, \<lparr>RangeEndingDate = Some ''2023-04-01'',
        NearNadir_Composite_Snow_Free = Some \<lparr>ncols = 2, rows = [[Fin 5, Fin 6], [Fin 7, Fin 8]]\<rparr>,
        lat_field = Some [20, 21], lon_field = Some [21, 22]\<rparr>, \<lparr>RangeEndingDate = Some ''2023-05-01'',
        NearNadir_Composite_Snow_Free = Some \<lparr>ncols = 2, rows = [[Fin 2, Fin 2], [Fin 6, Fin 3]]\<rparr>,
        lat_field = Some [10, 11], lon_field = Some [21, 22]\<rparr>]"
  let ?c = "(9, 23, 21, 39) :: bbox"
  let ?d1 = "[(\<lparr>ncols = 2, rows = [[Fin 1, Fin 2], [Fin 3, Fin 4]]\<rparr>, [10, 11], [21, 22]), (\<lparr>ncols = 2, rows = [[Fin 5, Fin 6], [Fin 7, Fin 8]]\<rparr>, [20, 21], [21, 22])] :: tile list" and ?d2 = "[(\<lparr>ncols = 2, rows = [[Fin 2, Fin 2], [Fin 6, Fin 3]]\<rparr>, [10, 11], [21, 22])] :: tile list"
  have s1: "single_mode_data ''2023-04-01'' ?c 1 False ?fs = Inr ?d1" by code_simp
  have s2: "single_mode_data ''2023-05-01'' ?c 1 False ?fs = Inr ?d2" by code_simp
  have g: "get_difference_data ''2023-04-01'' ''2023-05-01'' ?c False 1 False ?fs = Inr [(\<lparr>ncols = 2, rows = [[Fin 1, Fin 0], [Fin 3, Fin (- 1)]]\<rparr>, [10, 11], [21, 22])]"
    by code_simp
  have b: "\<forall>i<min (length ?d1) (length ?d2). broadcastable (fst (?d2 ! i)) (fst (?d1 ! i))"
    by (simp add: broadcastable_def bdim_def nrows_def)
  from difference_pairing[OF s1 s2, of False] b g
  have "length [(\<lparr>ncols = 2, rows = [[Fin 1, Fin 0], [Fin 3, Fin (- 1)]]\<rparr>, [10, 11], [21, 22]) :: tile] = min (length ?d1) (length ?d2)" by auto
  with s1 s2 g show ?thesis by blast
qed

text \<open>
  The claim as stated fails when the tile counts differ and a positional pair has
  different shapes: the first date has a 3 x 2 and a 2 x 2 tile, the second date only the
  2 x 2 tile, which is paired with the 3 x 2 tile; the subtraction raises \<open>ValueError\<close>.
\<close>

theorem difference_pairing_counterexample:
  "single_mode_data ''2023-04-01'' (9, 23, 21, 39) 1 False [\<lparr>RangeEndingDate = Some ''2023-04-01'',
        NearNadir_Composite_Snow_Free =
          Some \<lparr>ncols = 2, rows = [[Fin 1, Fin 2], [Fin 3, Fin 4], [Fin 5, Fin 6]]\<rparr>,
        lat_field = Some [10, 11, 12], lon_field = Some [21, 22]\<rparr>, \<lparr>RangeEndingDate = Some ''2023-04-01'',
        NearNadir_Composite_Snow_Free = Some \<lparr>ncols = 2, rows = [[Fin 5, Fin 6], [Fin 7, Fin 8]]\<rparr>,
        lat_field = Some [20, 21], lon_field = Some [21, 22]\<rparr>, \<lparr>RangeEndingDate = Some ''2023-05-01'',
        NearNadir_Composite_Snow_Free = Some \<lparr>ncols = 2, rows = [[Fin 9, Fin 9], [Fin 9, Fin 9]]\<rparr>,
        lat_field = Some [20, 21], lon_field = Some [21, 22]\<rparr>] = Inr [(\<lparr>ncols = 2, rows = [[Fin 1, Fin 2], [Fin 3, Fin 4], [Fin 5, Fin 6]]\<rparr>, [10, 11, 12], [21, 22]), (\<lparr>ncols = 2, rows = [[Fin 5, Fin 6], [Fin 7, Fin 8]]\<rparr>, [20, 21], [21, 22])]
   \<and> single_mode_data ''2023-05-01'' (9, 23, 21, 39) 1 False [\<lparr>RangeEndingDate = Some ''2023-04-01'',
        NearNadir_Composite_Snow_Free =
          Some \<lparr>ncols = 2, rows = [[Fin 1, Fin 2], [Fin 3, Fin 4], [Fin 5, Fin 6]]\<rparr>,
        lat_field = Some [10, 11, 12], lon_field = Some [21, 22]\<rparr>, \<lparr>RangeEndingDate = Some ''2023-04-01'',
        NearNadir_Composite_Snow_Free = Some \<lparr>ncols = 2, rows = [[Fin 5, Fin 6], [Fin 7, Fin 8]]\<rparr>,
        lat_field = Some [20, 21], lon_field = Some [21, 22]\<rparr>, \<lparr>RangeEndingDate = Some ''2023-05-01'',
        NearNadir_Composite_Snow_Free = Some \<lparr>ncols = 2, rows = [[Fin 9, Fin 9], [Fin 9, Fin 9]]\<rparr>,
        lat_field = Some [20, 21], lon_field = Some [21, 22]\<rparr>] = Inr [(\<lparr>ncols = 2, rows = [[Fin 9, Fin 9], [Fin 9, Fin 9]]\<rparr>, [20, 21], [21, 22])]
   \<and> get_difference_data ''2023-04-01'' ''2023-05-01'' (9, 23, 21, 39) False 1 False [\<lparr>RangeEndingDate = Some ''2023-04-01'',
        NearNadir_Composite_Snow_Free =
          Some \<lparr>ncols = 2, rows = [[Fin 1, Fin 2], [Fin 3, Fin 4], [Fin 5, Fin 6]]\<rparr>,
        lat_field = Some [10, 11, 12], lon_field = Some [21, 22]\<rparr>, \<lparr>RangeEndingDate = Some ''2023-04-01'',
        NearNadir_Composite_Snow_Free = Some \<lparr>ncols = 2, rows = [[Fin 5, Fin 6], [Fin 7, Fin 8]]\<rparr>,
        lat_field = Some [20, 21], lon_field = Some [21, 22]\<rparr>, \<lparr>RangeEndingDate = Some ''2023-05-01'',
        NearNadir_Composite_Snow_Free = Some \<lparr>ncols = 2, rows = [[Fin 9, Fin 9], [Fin 9, Fin 9]]\<rparr>,
        lat_field = Some [20, 21], lon_field = Some [21, 22]\<rparr>]
       = Inl ValueError"
  by code_simp

text \<open>
  C7. In absolute mode every returned tile carries the latitude and longitude vectors of
  the earlier date's tile at the same position, and each cell of its grid is the later
  value minus the earlier value at the cell (at the cell broadcasting pairs with it; for
  grids of the same shape, the same cell); for finite values, their difference.
\<close>

theorem absolute_difference:
  assumes "single_mode_data dateEarly coords chunk_size normalize_flag files = Inr d1"
    and "single_mode_data dateLater coords chunk_size normalize_flag files = Inr d2"
    and "get_difference_data dateEarly dateLater coords False chunk_size normalize_flag files = Inr ds"
    and "i < length ds"
  shows "i < length d1 \<and> i < length d2 \<and> snd (ds ! i) = snd (d1 ! i)
       \<and> (\<forall>r<nrows (fst (ds ! i)). \<forall>c<ncols (fst (ds ! i)).
             cell (fst (ds ! i)) r c =
               fsub (cell (fst (d2 ! i)) (bidx (nrows (fst (d2 ! i))) r) (bidx (ncols (fst (d2 ! i))) c))
                    (cell (fst (d1 ! i)) (bidx (nrows (fst (d1 ! i))) r) (bidx (ncols (fst (d1 ! i))) c)))
       \<and> (shape (fst (d2 ! i)) = shape (fst (d1 ! i)) \<longrightarrow>
             shape (fst (ds ! i)) = shape (fst (d1 ! i)) \<and>
             (\<forall>r<nrows (fst (d1 ! i)). \<forall>c<ncols (fst (d1 ! i)).
                cell (fst (ds ! i)) r c = fsub (cell (fst (d2 ! i)) r c) (cell (fst (d1 ! i)) r c) \<and>
                (\<forall>x y. cell (fst (d1 ! i)) r c = Fin x \<and> cell (fst (d2 ! i)) r c = Fin y \<longrightarrow>
                   cell (fst (ds ! i)) r c = Fin (y - x))))"
proof -
  let ?l1 = "fst (d1 ! i)" and ?l2 = "fst (d2 ! i)" and ?d = "fst (ds ! i)"
  note p = get_difference_data_pairs[OF assms(1,2,3)]
  have n: "i < length d1" "i < length d2" using p(1) assms(4) by simp_all
  have t: "difference_tile False (d1 ! i) (d2 ! i) = Inr (ds ! i)" by (rule p(2)[OF assms(4)])
  have co: "snd (ds ! i) = snd (d1 ! i)" by (rule difference_tile_coords[OF t])
  have b: "broadcast2 fsub ?l2 ?l1 = Inr ?d" by (rule difference_tile_absolute[OF t])
  have ce: "cell ?d r c = fsub (cell ?l2 (bidx (nrows ?l2) r) (bidx (ncols ?l2) c))
                               (cell ?l1 (bidx (nrows ?l1) r) (bidx (ncols ?l1) c))"
    if "r < nrows ?d" "c < ncols ?d" for r c
    by (rule broadcast2_Inr(4)[OF b that])
  have sm: "shape ?d = shape ?l1 \<and>
             (\<forall>r<nrows ?l1. \<forall>c<ncols ?l1.
                cell ?d r c = fsub (cell ?l2 r c) (cell ?l1 r c) \<and>
                (\<forall>x y. cell ?l1 r c = Fin x \<and> cell ?l2 r c = Fin y \<longrightarrow>
                   cell ?d r c = Fin (y - x)))"
    if s: "shape ?l2 = shape ?l1"
  proof -
    from s have e: "nrows ?l2 = nrows ?l1" "ncols ?l2 = ncols ?l1" by (simp_all add: shape_def)
    from broadcast2_Inr(1,2)[OF b] e have sd: "nrows ?d = nrows ?l1" "ncols ?d = ncols ?l1"
      by (simp_all add: bdim_same)
    have "cell ?d r c = fsub (cell ?l2 r c) (cell ?l1 r c)" if "r < nrows ?l1" "c < ncols ?l1" for r c
      using ce[of r c] that sd e by (simp add: bidx_same)
    then show ?thesis using sd by (auto simp: shape_def fsub_def)
  qed
  show ?thesis
    by (intro conjI allI impI n co ce sm[THEN conjunct1] sm[THEN conjunct2, rule_format])
qed

theorem absolute_difference_witness:
  "single_mode_data ''2023-04-01'' (9, 23, 21, 39) 1 False [\<lparr>RangeEndingDate = Some ''2023-04-01'',
        NearNadir_Composite_Snow_Free = Some \<lparr>ncols = 2, rows = [[Fin 1, Fin 2], [Fin 3, Fin 4]]\<rparr>,
        lat_field = Some [10, 11], lon_field = Some [21, 22]\<rparr>, \<lparr>RangeEndingDate = Some ''2023-04-01'',
        NearNadir_Composite_Snow_Free = Some \<lparr>ncols = 2, rows = [[Fin 5, Fin 6], [Fin 7, Fin 8]]\<rparr>,
        lat_field = Some [20, 21], lon_field = Some [21, 22]\<rparr>, \<lparr>RangeEndingDate = Some ''2023-05-01'',
        NearNadir_Composite_Snow_Free = Some \<lparr>ncols = 2, rows = [[Fin 2, Fin 2], [Fin 6, Fin 3]]\<rparr>,
        lat_field = Some [10, 11], lon_field = Some [21, 22]\<rparr>] = Inr [(\<lparr>ncols = 2, rows = [[Fin 1, Fin 2], [Fin 3, Fin 4]]\<rparr>, [10, 11], [21, 22]), (\<lparr>ncols = 2, rows = [[Fin 5, Fin 6], [Fin 7, Fin 8]]\<rparr>, [20, 21], [21, 22])]
   \<and> single_mode_data ''2023-05-01'' (9, 23, 21, 39) 1 False [\<lparr>RangeEndingDate = Some ''2023-04-01'',
        NearNadir_Composite_Snow_Free = Some \<lparr>ncols = 2, rows = [[Fin 1, Fin 2], [Fin 3, Fin 4]]\<rparr>,
        lat_field = Some [10, 11], lon_field = Some [21, 22]\<rparr>, \<lparr>RangeEndingDate = Some ''2023-04-01'',
        NearNadir_Composite_Snow_Free = Some \<lparr>ncols = 2, rows = [[Fin 5, Fin 6], [Fin 7, Fin 8]]\<rparr>,
        lat_field = Some [20, 21], lon_field = Some [21, 22]\<rparr>, \<lparr>RangeEndingDate = Some ''2023-05-01'',
        NearNadir_Composite_Snow_Free = Some \<lparr>ncols = 2, rows = [[Fin 2, Fin 2], [Fin 6, Fin 3]]\<rparr>,
        lat_field = Some [10, 11], lon_field = Some [21, 22]\<rparr>] = Inr [(\<lparr>ncols = 2, rows = [[Fin 2, Fin 2], [Fin 6, Fin 3]]\<rparr>, [10, 11], [21, 22])]
   \<and> get_difference_data ''2023-04-01'' ''2023-05-01'' (9, 23, 21, 39) False 1 False [\<lparr>RangeEndingDate = Some ''2023-04-01'',
        NearNadir_Composite_Snow_Free = Some \<lparr>ncols = 2, rows = [[Fin 1, Fin 2], [Fin 3, Fin 4]]\<rparr>,
        lat_field = Some [10, 11], lon_field = Some [21, 22]\<rparr>, \<lparr>RangeEndingDate = Some ''2023-04-01'',
        NearNadir_Composite_Snow_Free = Some \<lparr>ncols = 2, rows = [[Fin 5, Fin 6], [Fin 7, Fin 8]]\<rparr>,
        lat_field = Some [20, 21], lon_field = Some [21, 22]\<rparr>, \<lparr>RangeEndingDate = Some ''2023-05-01'',
        NearNadir_Composite_Snow_Free = Some \<lparr>ncols = 2, rows = [[Fin 2, Fin 2], [Fin 6, Fin 3]]\<rparr>,
        lat_field = Some [10, 11], lon_field = Some [21, 22]\<rparr>]
       = Inr [(\<lparr>ncols = 2, rows = [[Fin 1, Fin 0], [Fin 3, Fin (- 1)]]\<rparr>, [10, 11], [21, 22])]
   \<and> snd ((\<lparr>ncols = 2, rows = [[Fin 1, Fin 0], [Fin 3, Fin (- 1)]]\<rparr>, [10, 11], [21, 22]) :: tile) = snd ((\<lparr>ncols = 2, rows = [[Fin 1, Fin 2], [Fin 3, Fin 4]]\<rparr>, [10, 11], [21, 22]) :: tile)
   \<and> cell (fst ((\<lparr>ncols = 2, rows = [[Fin 1, Fin 0], [Fin 3, Fin (- 1)]]\<rparr>, [10, 11], [21, 22]) :: tile)) 1 1 = Fin (3 - 4)"
proof -
  let ?fs = "[\<lparr>RangeEndingDate = Some ''2023-04-01'',
        NearNadir_Composite_Snow_Free = Some \<lparr>ncols = 2, rows = [[Fin 1, Fin 2], [Fin 3, Fin 4]]\<rparr>,
        lat_field = Some [10, 11], lon_field = Some [21, 22]\<rparr>, \<lparr>RangeEndingDate = Some ''2023-04-01'',
        NearNadir_Composite_Snow_Free = Some \<lparr>ncols = 2, rows = [[Fin 5, Fin 6], [Fin 7, Fin 8]]\<rparr>,
        lat_field = Some [20, 21], lon_field = Some [21, 22]\<rparr>, \<lparr>RangeEndingDate = Some ''2023-05-01'',
        NearNadir_Composite_Snow_Free = Some \<lparr>ncols = 2, rows = [[Fin 2, Fin 2], [Fin 6, Fin 3]]\<rparr>,
        lat_field = Some [10, 11], lon_field = Some [21, 22]\<rparr>]"
  let ?c = "(9, 23, 21, 39) :: bbox"
  let ?d1 = "[(\<lparr>ncols = 2, rows = [[Fin 1, Fin 2], [Fin 3, Fin 4]]\<rparr>, [10, 11], [21, 22]), (\<lparr>ncols = 2, rows = [[Fin 5, Fin 6], [Fin 7, Fin 8]]\<rparr>, [20, 21], [21, 22])] :: tile list" and ?d2 = "[(\<lparr>ncols = 2, rows = [[Fin 2, Fin 2], [Fin 6, Fin 3]]\<rparr>, [10, 11], [21, 22])] :: tile list"
  let ?ds = "[(\<lparr>ncols = 2, rows = [[Fin 1, Fin 0], [Fin 3, Fin (- 1)]]\<rparr>, [10, 11], [21, 22])] :: tile list"
  have s1: "single_mode_data ''2023-04-01'' ?c 1 False ?fs = Inr ?d1" by code_simp
  have s2: "single_mode_data ''2023-05-01'' ?c 1 False ?fs = Inr ?d2" by code_simp
  have g: "get_difference_data ''2023-04-01'' ''2023-05-01'' ?c False 1 False ?fs = Inr ?ds"
    by code_simp
  have i: "0 < length ?ds" by simp
  note t = absolute_difference[OF s1 s2 g i]
  from t have a: "snd (?ds ! 0) = snd (?d1 ! 0)" by blast
  have sh: "shape (fst (?d2 ! 0)) = shape (fst (?d1 ! 0))" by (simp add: shape_def nrows_def)
  have r: "1 < nrows (fst (?d1 ! 0))" and c: "1 < ncols (fst (?d1 ! 0))" by (simp_all add: nrows_def)
  have x: "cell (fst (?d1 ! 0)) 1 1 = Fin 4" and y: "cell (fst (?d2 ! 0)) 1 1 = Fin 3"
    by (simp_all add: cell_def)
  from t sh r c x y have "cell (fst (?ds ! 0)) 1 1 = Fin (3 - 4)" by blast
  with s1 s2 g a show ?thesis by simp
qed

section \<open>Values of the pipeline are never negative\<close>

lemma fadd_not_negative: "\<not> flt0 a \<Longrightarrow> \<not> flt0 b \<Longrightarrow> \<not> flt0 (fadd a b)"
  by (cases a; cases b) simp_all

lemma fdiv_not_negative: "\<not> flt0 a \<Longrightarrow> \<not> flt0 b \<Longrightarrow> \<not> flt0 (fdiv a b)"
  by (cases a; cases b) (simp_all add: not_less)

lemma foldl_fadd_not_negative:
  "\<not> flt0 a \<Longrightarrow> \<forall>v\<in>set xs. \<not> flt0 v \<Longrightarrow> \<not> flt0 (foldl fadd a xs)"
  by (induction xs arbitrary: a) (simp_all add: fadd_not_negative)

lemma fsum_not_negative: "\<forall>v\<in>set xs. \<not> flt0 v \<Longrightarrow> \<not> flt0 (fsum xs)"
  unfolding fsum_def by (rule foldl_fadd_not_negative) simp_all

lemma mask_not_negative: "\<not> flt0 (mask_invalid v)"
  by (cases v) (simp_all add: mask_invalid_def)

lemma all_cells_set: "all_cells P a \<longleftrightarrow> (\<forall>v\<in>set (concat (rows a)). P v)"
  by (auto simp: all_cells_def list_all_iff)

lemma all_cells_cell:
  assumes "all_cells P a" and "rect a" and "i < nrows a" and "j < ncols a"
  shows "P (cell a i j)"
proof -
  have r: "rows a ! i \<in> set (rows a)" using assms(3) by (simp add: nrows_def)
  have "length (rows a ! i) = ncols a" by (rule rect_row[OF assms(2,3)])
  with assms(4) have "rows a ! i ! j \<in> set (rows a ! i)" by simp
  with r assms(1) show ?thesis by (auto simp: all_cells_def list_all_iff cell_def)
qed

lemma all_cells_cellI:
  assumes "rect a" and "\<And>i j. i < nrows a \<Longrightarrow> j < ncols a \<Longrightarrow> P (cell a i j)"
  shows "all_cells P a"
  unfolding all_cells_def list_all_length
proof (intro allI impI)
  fix i j assume i: "i < length (rows a)" and j: "j < length (rows a ! i)"
  from i have i': "i < nrows a" by (simp add: nrows_def)
  from rect_row[OF assms(1) i'] j have "j < ncols a" by simp
  from assms(2)[OF i' this] show "P (rows a ! i ! j)" by (simp add: cell_def)
qed

lemma rect_slice2: "rect a \<Longrightarrow> rect (slice2 r0 r1 c0 c1 a)"
proof -
  assume r: "rect a"
  have "length (slice c0 c1 x) = min c1 (ncols a) - c0"
    if "x \<in> set (slice r0 r1 (rows a))" for x
  proof -
    from that have "x \<in> set (rows a)"
      by (auto simp: slice_def dest: in_set_takeD in_set_dropD)
    with r have "length x = ncols a" by (simp add: rect_def list_all_iff)
    then show ?thesis by (simp add: slice_def)
  qed
  then show ?thesis by (simp add: rect_def slice2_def list_all_iff)
qed

lemma all_cells_slice2: "all_cells P a \<Longrightarrow> all_cells P (slice2 r0 r1 c0 c1 a)"
  by (auto simp: all_cells_def slice2_def slice_def list_all_iff dest!: in_set_takeD in_set_dropD)

lemma all_cells_amap: "(\<And>v. P (f v)) \<Longrightarrow> all_cells P (amap f a)"
  by (simp add: all_cells_def amap_def list_all_iff)

lemma all_cells_amap_mono: "all_cells Q a \<Longrightarrow> (\<And>v. Q v \<Longrightarrow> P (f v)) \<Longrightarrow> all_cells P (amap f a)"
  by (simp add: all_cells_def amap_def list_all_iff)

lemma load_file_grid:
  "load_file d c f = Inr (Some t) \<Longrightarrow>
   \<exists>raw r0 r1 c0 c1. NearNadir_Composite_Snow_Free f = Some raw \<and>
      fst t = slice2 r0 r1 c0 c1 (amap mask_invalid raw)"
  by (auto simp: load_file_def Let_def split: prod.splits option.splits if_splits)
     (intro exI, rule refl)

lemma map_filter_mem: "t \<in> set (List.map_filter g xs) \<Longrightarrow> \<exists>x\<in>set xs. g x = Some t"
  by (auto simp: List.map_filter_def)

lemma load_good:
  assumes "load_data_for_date d c files = Inr ts" and "rect_store files" and "t \<in> set ts"
  shows "pipeline_tile t"
proof -
  from assms(1) have "ts = sort_key tile_key (List.map_filter (file_tile d c) files)"
    unfolding load_data_for_date_eq by (auto split: if_splits)
  with assms(3) have "t \<in> set (List.map_filter (file_tile d c) files)" by simp
  from map_filter_mem[OF this] obtain f where f: "f \<in> set files" "file_tile d c f = Some t"
    by blast
  from f(2) have "load_file d c f = Inr (Some t)"
    by (simp add: file_tile_def split: sum.splits)
  from load_file_grid[OF this] obtain raw r0 r1 c0 c1 where
    raw: "NearNadir_Composite_Snow_Free f = Some raw" "fst t = slice2 r0 r1 c0 c1 (amap mask_invalid raw)"
    by blast
  from assms(2) f(1) raw(1) have "rect raw" by (auto simp: rect_store_def list_all_iff)
  then have "rect (fst t)" by (simp add: raw(2) rect_slice2 rect_amap)
  moreover have "all_cells (\<lambda>v. \<not> flt0 v) (fst t)"
    unfolding raw(2) by (intro all_cells_slice2 all_cells_amap mask_not_negative)
  ultimately show ?thesis by (simp add: pipeline_tile_def)
qed

lemma block_cells_not_negative:
  assumes "rect m" and "all_cells (\<lambda>v. \<not> flt0 v) m" and "i < nrows m div n" and "j < ncols m div n"
  shows "\<forall>v\<in>set (block_cells m n i j). \<not> flt0 v"
proof
  fix v assume "v \<in> set (block_cells m n i j)"
  then obtain a b where ab: "a < n" "b < n" "v = cell m (i * n + a) (j * n + b)"
    by (auto simp: block_cells_def)
  have "i * n + a < nrows m div n * n" by (rule mul_add_less[OF assms(3) ab(1)])
  then have r: "i * n + a < nrows m" using div_times_less_eq_dividend[of "nrows m" n] by linarith
  have "j * n + b < ncols m div n * n" by (rule mul_add_less[OF assms(4) ab(2)])
  then have c: "j * n + b < ncols m" using div_times_less_eq_dividend[of "ncols m" n] by linarith
  from all_cells_cell[OF assms(2,1) r c] ab(3) show "\<not> flt0 v" by simp
qed

lemma chunk_good:
  assumes "0 < n" and "pipeline_tile t" and "chunk_tile n t = Some t'"
  shows "pipeline_tile t'"
proof -
  from assms(3) have b: "block_average (fst t) n = Inr (fst t')"
    by (auto simp: chunk_tile_def split: sum.splits)
  have nl: "\<not> (nrows (fst t) < n \<or> ncols (fst t) < n)"
    using block_average_Inl[OF assms(1), of "fst t" ValueError] b by auto
  from assms(2) have r: "rect (fst t)" and p: "all_cells (\<lambda>v. \<not> flt0 v) (fst t)"
    by (simp_all add: pipeline_tile_def)
  from block_average_cells[OF r assms(1)] nl b
  have sh: "nrows (fst t') = nrows (fst t) div n" "ncols (fst t') = ncols (fst t) div n"
    and re: "rect (fst t')"
    and ce: "\<forall>i<nrows (fst t) div n. \<forall>j<ncols (fst t) div n.
              cell (fst t') i j = fdiv (fsum (block_cells (fst t) n i j)) (Fin (real (n * n)))"
    by auto
  have "all_cells (\<lambda>v. \<not> flt0 v) (fst t')"
  proof (rule all_cells_cellI[OF re])
    fix i j assume "i < nrows (fst t')" "j < ncols (fst t')"
    then have ij: "i < nrows (fst t) div n" "j < ncols (fst t) div n" by (simp_all add: sh)
    have "\<not> flt0 (fsum (block_cells (fst t) n i j))"
      by (rule fsum_not_negative[OF block_cells_not_negative[OF r p ij]])
    then have "\<not> flt0 (fdiv (fsum (block_cells (fst t) n i j)) (Fin (real (n * n))))"
      by (rule fdiv_not_negative) simp
    with ce ij show "\<not> flt0 (cell (fst t') i j)" by simp
  qed
  with re show ?thesis by (simp add: pipeline_tile_def)
qed

lemma normalize_good:
  assumes "\<forall>t\<in>set ts. pipeline_tile t" and "t \<in> set (normalize_data ts)"
  shows "pipeline_tile t"
proof -
  have "\<forall>v\<in>set (all_values ts). \<not> flt0 v"
    using assms(1) by (auto simp: all_values_def pipeline_tile_def all_cells_set)
  then have tot: "\<not> flt0 (grand_total ts)"
    unfolding grand_total_def by (rule fsum_not_negative)
  from assms(2) obtain u where u: "u \<in> set ts"
    "t = (amap (\<lambda>v. fdiv v (grand_total ts)) (fst u), snd u)"
    unfolding normalize_data_eq by auto
  from assms(1) u(1) have g: "rect (fst u)" "all_cells (\<lambda>v. \<not> flt0 v) (fst u)"
    by (simp_all add: pipeline_tile_def)
  have "all_cells (\<lambda>v. \<not> flt0 v) (amap (\<lambda>v. fdiv v (grand_total ts)) (fst u))"
    by (rule all_cells_amap_mono[OF g(2)]) (simp add: fdiv_not_negative tot)
  with g(1) show ?thesis by (simp add: pipeline_tile_def u(2) rect_amap)
qed

lemma single_mode_good:
  assumes "single_mode_data d c n nz files = Inr ts" and "rect_store files" and "t \<in> set ts"
  shows "pipeline_tile t"
proof -
  from assms(1) obtain loaded chunked where
    l: "load_data_for_date d c files = Inr loaded"
    and ch: "(if 1 < n then chunk_data loaded n else Inr loaded) = Inr chunked"
    and ts: "ts = (if nz then normalize_data chunked else chunked)"
    by (auto simp: single_mode_data_def split: sum.splits)
  have gl: "\<forall>t\<in>set loaded. pipeline_tile t" using load_good[OF l assms(2)] by blast
  have gc: "\<forall>t\<in>set chunked. pipeline_tile t"
  proof (cases "1 < n")
    case True
    then have n: "0 < n" by simp
    from ch True have "chunked = List.map_filter (chunk_tile n) loaded"
      by (simp add: chunk_data_eq[OF n])
    then show ?thesis
      using gl chunk_good[OF n] by (auto dest!: map_filter_mem)
  next
    case False
    with ch gl show ?thesis by simp
  qed
  show ?thesis
  proof (cases nz)
    case True
    with ts assms(3) have "t \<in> set (normalize_data chunked)" by simp
    from normalize_good[OF gc this] show ?thesis .
  next
    case False
    with ts assms(3) gc show ?thesis by simp
  qed
qed

lemma relative_sign:
  assumes "\<not> flt0 earlier" and "\<not> flt0 later"
  shows "flt0 (fdiv later (if feq0 earlier then Fin (- 1) else earlier)) \<longleftrightarrow> feq0 earlier \<and> fgt0 later"
  using assms by (cases earlier; cases later) (auto simp: not_less divide_less_0_iff)

lemma relative_cell_eq:
  assumes "difference_tile True t1 t2 = Inr d" and "rect (fst t1)"
    and "r < nrows (fst d)" and "c < ncols (fst d)"
  shows "bidx (nrows (fst t1)) r < nrows (fst t1)" and "bidx (ncols (fst t1)) c < ncols (fst t1)"
    and "bidx (nrows (fst t2)) r < nrows (fst t2)" and "bidx (ncols (fst t2)) c < ncols (fst t2)"
    and "cell (fst d) r c =
           fdiv (cell (fst t2) (bidx (nrows (fst t2)) r) (bidx (ncols (fst t2)) c))
                (if feq0 (cell (fst t1) (bidx (nrows (fst t1)) r) (bidx (ncols (fst t1)) c))
                 then Fin (- 1)
                 else cell (fst t1) (bidx (nrows (fst t1)) r) (bidx (ncols (fst t1)) c))"
proof -
  let ?den = "amap (\<lambda>v. if feq0 v then Fin (- 1) else v) (fst t1)"
  have b: "broadcast2 fdiv (fst t2) ?den = Inr (fst d)"
    by (rule difference_tile_relative[OF assms(1)])
  have rr: "bdim (nrows (fst t2)) (nrows (fst t1)) = Some (nrows (fst d))"
    and cc: "bdim (ncols (fst t2)) (ncols (fst t1)) = Some (ncols (fst d))"
    using broadcast2_Inr(1,2)[OF b] by (simp_all add: nrows_amap ncols_amap)
  show i1: "bidx (nrows (fst t1)) r < nrows (fst t1)" using bdim_bidx[OF rr assms(3)] by simp
  show j1: "bidx (ncols (fst t1)) c < ncols (fst t1)" using bdim_bidx[OF cc assms(4)] by simp
  show "bidx (nrows (fst t2)) r < nrows (fst t2)" using bdim_bidx[OF rr assms(3)] by simp
  show "bidx (ncols (fst t2)) c < ncols (fst t2)" using bdim_bidx[OF cc assms(4)] by simp
  have "cell (fst d) r c =
          fdiv (cell (fst t2) (bidx (nrows (fst t2)) r) (bidx (ncols (fst t2)) c))
               (cell ?den (bidx (nrows (fst t1)) r) (bidx (ncols (fst t1)) c))"
    using broadcast2_Inr(4)[OF b assms(3,4)] by (simp add: nrows_amap ncols_amap)
  then show "cell (fst d) r c =
           fdiv (cell (fst t2) (bidx (nrows (fst t2)) r) (bidx (ncols (fst t2)) c))
                (if feq0 (cell (fst t1) (bidx (nrows (fst t1)) r) (bidx (ncols (fst t1)) c))
                 then Fin (- 1)
                 else cell (fst t1) (bidx (nrows (fst t1)) r) (bidx (ncols (fst t1)) c))"
    using cell_amap[OF assms(2) i1 j1] by simp
qed

text \<open>
  C10. In relative mode, for every cell that \<open>get_difference_data\<close> returns from a store
  of rectangular grids: when the earlier and the later value are both zero the result is
  zero, and the result is negative exactly when the earlier value is zero and the later
  value is positive.
\<close>

theorem relative_sentinel_sign:
  assumes "rect_store files"
    and "single_mode_data dateEarly coords chunk_size normalize_flag files = Inr d1"
    and "single_mode_data dateLater coords chunk_size normalize_flag files = Inr d2"
    and "get_difference_data dateEarly dateLater coords True chunk_size normalize_flag files = Inr ds"
    and "i < length ds" and "r < nrows (fst (ds ! i))" and "c < ncols (fst (ds ! i))"
    and "earlier = cell (fst (d1 ! i)) (bidx (nrows (fst (d1 ! i))) r) (bidx (ncols (fst (d1 ! i))) c)"
    and "later = cell (fst (d2 ! i)) (bidx (nrows (fst (d2 ! i))) r) (bidx (ncols (fst (d2 ! i))) c)"
  shows "(feq0 earlier \<and> feq0 later \<longrightarrow> cell (fst (ds ! i)) r c = Fin 0)
       \<and> (flt0 (cell (fst (ds ! i)) r c) \<longleftrightarrow> feq0 earlier \<and> fgt0 later)"
proof -
  note p = get_difference_data_pairs[OF assms(2,3,4)]
  have n: "i < length d1" "i < length d2" using p(1) assms(5) by simp_all
  have t: "difference_tile True (d1 ! i) (d2 ! i) = Inr (ds ! i)" by (rule p(2)[OF assms(5)])
  have g1: "pipeline_tile (d1 ! i)" using single_mode_good[OF assms(2,1)] n(1) by simp
  have g2: "pipeline_tile (d2 ! i)" using single_mode_good[OF assms(3,1)] n(2) by simp
  from g1 have r1: "rect (fst (d1 ! i))" by (simp add: pipeline_tile_def)
  note q = relative_cell_eq[OF t r1 assms(6,7)]
  have e: "\<not> flt0 earlier"
    unfolding assms(8) using g1 q(1,2) by (auto simp: pipeline_tile_def dest: all_cells_cell)
  have l: "\<not> flt0 later"
    unfolding assms(9) using g2 q(3,4) by (auto simp: pipeline_tile_def dest: all_cells_cell)
  have eq: "cell (fst (ds ! i)) r c = fdiv later (if feq0 earlier then Fin (- 1) else earlier)"
    using q(5) by (simp add: assms(8,9))
  have z: "cell (fst (ds ! i)) r c = Fin 0" if "feq0 earlier \<and> feq0 later"
    using that eq by (cases earlier; cases later) simp_all
  have s: "flt0 (cell (fst (ds ! i)) r c) \<longleftrightarrow> feq0 earlier \<and> fgt0 later"
    unfolding eq by (rule relative_sign[OF e l])
  from z s show ?thesis by blast
qed

theorem relative_sentinel_sign_witness:
  "rect_store [\<lparr>RangeEndingDate = Some ''2023-04-01'',
        NearNadir_Composite_Snow_Free = Some \<lparr>ncols = 3, rows = [[Fin 0, Fin 0, Fin 2]]\<rparr>,
        lat_field = Some [10], lon_field = Some [21, 22, 23]\<rparr>, \<lparr>RangeEndingDate = Some ''2023-05-01'',
        NearNadir_Composite_Snow_Free = Some \<lparr>ncols = 3, rows = [[Fin 0, Fin 5, Fin 6]]\<rparr>,
        lat_field = Some [10], lon_field = Some [21, 22, 23]\<rparr>]
   \<and> single_mode_data ''2023-04-01'' (9, 23, 21, 39) 1 False [\<lparr>RangeEndingDate = Some ''2023-04-01'',
        NearNadir_Composite_Snow_Free = Some \<lparr>ncols = 3, rows = [[Fin 0, Fin 0, Fin 2]]\<rparr>,
        lat_field = Some [10], lon_field = Some [21, 22, 23]\<rparr>, \<lparr>RangeEndingDate = Some ''2023-05-01'',
        NearNadir_Composite_Snow_Free = Some \<lparr>ncols = 3, rows = [[Fin 0, Fin 5, Fin 6]]\<rparr>,
        lat_field = Some [10], lon_field = Some [21, 22, 23]\<rparr>] = Inr [(\<lparr>ncols = 3, rows = [[Fin 0, Fin 0, Fin 2]]\<rparr>, [10], [21, 22, 23])]
   \<and> single_mode_data ''2023-05-01'' (9, 23, 21, 39) 1 False [\<lparr>RangeEndingDate = Some ''2023-04-01'',
        NearNadir_Composite_Snow_Free = Some \<lparr>ncols = 3, rows = [[Fin 0, Fin 0, Fin 2]]\<rparr>,
        lat_field = Some [10], lon_field = Some [21, 22, 23]\<rparr>, \<lparr>RangeEndingDate = Some ''2023-05-01'',
        NearNadir_Composite_Snow_Free = Some \<lparr>ncols = 3, rows = [[Fin 0, Fin 5, Fin 6]]\<rparr>,
        lat_field = Some [10], lon_field = Some [21, 22, 23]\<rparr>] = Inr [(\<lparr>ncols = 3, rows = [[Fin 0, Fin 5, Fin 6]]\<rparr>, [10], [21, 22, 23])]
   \<and> get_difference_data ''2023-04-01'' ''2023-05-01'' (9, 23, 21, 39) True 1 False [\<lparr>RangeEndingDate = Some ''2023-04-01'',
        NearNadir_Composite_Snow_Free = Some \<lparr>ncols = 3, rows = [[Fin 0, Fin 0, Fin 2]]\<rparr>,
        lat_field = Some [10], lon_field = Some [21, 22, 23]\<rparr>, \<lparr>RangeEndingDate = Some ''2023-05-01'',
        NearNadir_Composite_Snow_Free = Some \<lparr>ncols = 3, rows = [[Fin 0, Fin 5, Fin 6]]\<rparr>,
        lat_field = Some [10], lon_field = Some [21, 22, 23]\<rparr>]
       = Inr [(\<lparr>ncols = 3, rows = [[Fin 0, Fin (- 5), Fin 3]]\<rparr>, [10], [21, 22, 23])]
   \<and> cell (fst ((\<lparr>ncols = 3, rows = [[Fin 0, Fin (- 5), Fin 3]]\<rparr>, [10], [21, 22, 23]) :: tile)) 0 0 = Fin 0
   \<and> \<not> flt0 (cell (fst ((\<lparr>ncols = 3, rows = [[Fin 0, Fin (- 5), Fin 3]]\<rparr>, [10], [21, 22, 23]) :: tile)) 0 0)
   \<and> flt0 (cell (fst ((\<lparr>ncols = 3, rows = [[Fin 0, Fin (- 5), Fin 3]]\<rparr>, [10], [21, 22, 23]) :: tile)) 0 1)
   \<and> \<not> flt0 (cell (fst ((\<lparr>ncols = 3, rows = [[Fin 0, Fin (- 5), Fin 3]]\<rparr>, [10], [21, 22, 23]) :: tile)) 0 2)"
proof -
  let ?fs = "[\<lparr>RangeEndingDate = Some ''2023-04-01'',
        NearNadir_Composite_Snow_Free = Some \<lparr>ncols = 3, rows = [[Fin 0, Fin 0, Fin 2]]\<rparr>,
        lat_field = Some [10], lon_field = Some [21, 22, 23]\<rparr>, \<lparr>RangeEndingDate = Some ''2023-05-01'',
        NearNadir_Composite_Snow_Free = Some \<lparr>ncols = 3, rows = [[Fin 0, Fin 5, Fin 6]]\<rparr>,
        lat_field = Some [10], lon_field = Some [21, 22, 23]\<rparr>]"
  let ?c = "(9, 23, 21, 39) :: bbox"
  let ?d1 = "[(\<lparr>ncols = 3, rows = [[Fin 0, Fin 0, Fin 2]]\<rparr>, [10], [21, 22, 23])] :: tile list" and ?d2 = "[(\<lparr>ncols = 3, rows = [[Fin 0, Fin 5, Fin 6]]\<rparr>, [10], [21, 22, 23])] :: tile list" and ?ds = "[(\<lparr>ncols = 3, rows = [[Fin 0, Fin (- 5), Fin 3]]\<rparr>, [10], [21, 22, 23])] :: tile list"
  have h0: "rect_store ?fs" by code_simp
  have s1: "single_mode_data ''2023-04-01'' ?c 1 False ?fs = Inr ?d1" by code_simp
  have s2: "single_mode_data ''2023-05-01'' ?c 1 False ?fs = Inr ?d2" by code_simp
  have g: "get_difference_data ''2023-04-01'' ''2023-05-01'' ?c True 1 False ?fs = Inr ?ds"
    by code_simp
  have i: "0 < length ?ds" and r: "0 < nrows (fst (?ds ! 0))"
    and c0: "0 < ncols (fst (?ds ! 0))" and c1: "1 < ncols (fst (?ds ! 0))"
    and c2: "2 < ncols (fst (?ds ! 0))"
    by (simp_all add: nrows_def)
  have e0: "Fin 0 = cell (fst (?d1 ! 0)) (bidx (nrows (fst (?d1 ! 0))) 0) (bidx (ncols (fst (?d1 ! 0))) 0)"
    and l0: "Fin 0 = cell (fst (?d2 ! 0)) (bidx (nrows (fst (?d2 ! 0))) 0) (bidx (ncols (fst (?d2 ! 0))) 0)"
    and e1: "Fin 0 = cell (fst (?d1 ! 0)) (bidx (nrows (fst (?d1 ! 0))) 0) (bidx (ncols (fst (?d1 ! 0))) 1)"
    and l1: "Fin 5 = cell (fst (?d2 ! 0)) (bidx (nrows (fst (?d2 ! 0))) 0) (bidx (ncols (fst (?d2 ! 0))) 1)"
    and e2: "Fin 2 = cell (fst (?d1 ! 0)) (bidx (nrows (fst (?d1 ! 0))) 0) (bidx (ncols (fst (?d1 ! 0))) 2)"
    and l2: "Fin 6 = cell (fst (?d2 ! 0)) (bidx (nrows (fst (?d2 ! 0))) 0) (bidx (ncols (fst (?d2 ! 0))) 2)"
    by (simp_all add: cell_def bidx_def nrows_def)
  from relative_sentinel_sign[OF h0 s1 s2 g i r c0 e0 l0]
  have a: "cell (fst ((\<lparr>ncols = 3, rows = [[Fin 0, Fin (- 5), Fin 3]]\<rparr>, [10], [21, 22, 23]) :: tile)) 0 0 = Fin 0" and b: "\<not> flt0 (cell (fst ((\<lparr>ncols = 3, rows = [[Fin 0, Fin (- 5), Fin 3]]\<rparr>, [10], [21, 22, 23]) :: tile)) 0 0)"
    by simp_all
  from relative_sentinel_sign[OF h0 s1 s2 g i r c1 e1 l1]
  have c: "flt0 (cell (fst ((\<lparr>ncols = 3, rows = [[Fin 0, Fin (- 5), Fin 3]]\<rparr>, [10], [21, 22, 23]) :: tile)) 0 1)" by simp
  from relative_sentinel_sign[OF h0 s1 s2 g i r c2 e2 l2]
  have d: "\<not> flt0 (cell (fst ((\<lparr>ncols = 3, rows = [[Fin 0, Fin (- 5), Fin 3]]\<rparr>, [10], [21, 22, 23]) :: tile)) 0 2)" by simp
  from h0 s1 s2 g a b c d show ?thesis by blast
qed

section \<open>Alignment under loading, normalizing and differencing\<close>

text \<open>
  The other operations keep tiles aligned: loading a file whose grid has one row for each
  latitude and one column for each longitude, normalizing, and taking the difference of
  two tiles of the same shape.
\<close>

lemma normalize_data_aligned:
  "\<forall>t\<in>set ts. aligned t \<Longrightarrow> \<forall>t\<in>set (normalize_data ts). aligned t"
  by (auto simp: normalize_data_eq aligned_def nrows_amap ncols_amap)

lemma load_file_aligned:
  assumes "load_file d c f = Inr (Some t)"
    and "NearNadir_Composite_Snow_Free f = Some raw"
    and "lat_field f = Some lat_data" and "lon_field f = Some lon_data"
    and "nrows raw = length lat_data" and "ncols raw = length lon_data"
  shows "aligned t"
proof -
  obtain south north west east where c: "c = (south, north, west, east)" by (cases c)
  from assms(1) have dt: "RangeEndingDate f = Some d"
    by (auto simp: load_file_def split: prod.splits option.splits if_splits)
  from load_file_cropped(2)[OF dt assms(2,3,4)] assms(1)
  have "cropped (south, north, west, east) raw lat_data lon_data t" by (simp add: c)
  then obtain a b c' d' where
    ra: "index_range south north lat_data a b" and rc: "index_range west east lon_data c' d'"
    and t: "t = (slice2 a (Suc b) c' (Suc d') (amap mask_invalid raw),
                 map ((!) lat_data) [a..<Suc b], map ((!) lon_data) [c'..<Suc d'])"
    by (auto simp: cropped_def)
  from ra rc have "a \<le> b" "b < length lat_data" "c' \<le> d'" "d' < length lon_data"
    by (simp_all add: index_range_def)
  then show ?thesis
    using assms(5,6)
    by (simp add: t aligned_def slice2_def slice_def nrows_def amap_def Suc_diff_le)
qed

lemma difference_tile_aligned:
  assumes "difference_tile relative t1 t2 = Inr d" and "aligned t1"
    and "shape (fst t2) = shape (fst t1)"
  shows "aligned d"
proof -
  obtain l1 la lo where t1: "t1 = (l1, la, lo)" by (cases t1)
  obtain l2 la2 lo2 where t2: "t2 = (l2, la2, lo2)" by (cases t2)
  from assms(3) have e: "nrows l2 = nrows l1" "ncols l2 = ncols l1"
    by (simp_all add: shape_def t1 t2)
  obtain g where g: "d = (g, la, lo)"
    and b: "broadcast2 fdiv l2 (amap (\<lambda>v. if feq0 v then Fin (- 1) else v) l1) = Inr g
            \<or> broadcast2 fsub l2 l1 = Inr g"
    using assms(1) by (auto simp: difference_tile_def t1 t2 split: sum.splits if_splits)
  have "nrows g = nrows l1 \<and> ncols g = ncols l1"
  proof (rule disjE[OF b])
    assume x: "broadcast2 fdiv l2 (amap (\<lambda>v. if feq0 v then Fin (- 1) else v) l1) = Inr g"
    from broadcast2_Inr(1,2)[OF x] e show ?thesis
      by (simp add: nrows_amap ncols_amap bdim_same)
  next
    assume x: "broadcast2 fsub l2 l1 = Inr g"
    from broadcast2_Inr(1,2)[OF x] e show ?thesis by (simp add: bdim_same)
  qed
  with assms(2) show ?thesis by (simp add: aligned_def g t1)
qed

end
